theory Spec2Isabelle
  imports Main "HOL-Library.AList"
begin

section \<open>The CNI plugin-chain driver of libcni/api.go\<close>

text \<open>
  A shallow embedding of \<^verbatim>\<open>src/libcni/api.go\<close>: the derived configuration built
  for each plugin, the result cache, and the ADD / CHECK / DEL walks over a plugin list.

  Conventions of the embedding.
  \<^item> A byte string that holds a JSON text (a configuration's \<^verbatim>\<open>Bytes\<close>, a cache
    file's contents, a plugin's input) is represented by the JSON value it denotes.
  \<^item> A Go map is represented by the list of its entries, in the (unspecified) order in
    which \<^verbatim>\<open>range\<close> visits them; a key is looked up with \<open>map_of\<close> and stored
    with \<open>AList.update\<close>, which keeps the keys distinct.
  \<^item> A Go return \<^verbatim>\<open>(T, error)\<close> is a sum \<open>error + T\<close> where the code returns
    either the one or the other, and a pair of options where it can return both.
  \<^item> The collaborators that are not part of \<^verbatim>\<open>api.go\<close> (version registry, plugin
    execution, the gRPC stubs, the JSON encoding of a result) are the fields of an
    environment record; every theorem holds for every environment.
  \<^item> The diagnostic lines appended to \<^verbatim>\<open>/tmp/check.log\<close> are left out: the handle
    may be nil and every write's error is discarded, so they never change a result.
\<close>

subsection \<open>JSON values and errors\<close>

datatype json =
    JNull
  | JBool bool
  | JNumber int
  | JString string
  | JArray "json list"
  | JObject "(string \<times> json) list"

type_synonym bytes = json

definition field :: "bytes \<Rightarrow> string \<Rightarrow> json option" where
  "field doc k = (case doc of JObject m \<Rightarrow> map_of m k | _ \<Rightarrow> None)"

datatype errno = ENOENT | EEXIST | ENOTDIR | EISDIR | ENOTEMPTY

text \<open>
  The errors the driver returns. \<open>Opaque\<close> is an error produced by a collaborator;
  the others are built in \<^verbatim>\<open>api.go\<close> with \<^verbatim>\<open>fmt.Errorf\<close> (the constructor's
  arguments are the values formatted into the message) or come from the file system.
\<close>

datatype error =
    Opaque string
  | PathError errno
  | ConfigInvalid string
  | CheckUnsupported string
  | SetCacheFailed string error
  | GetCacheFailed string error
  | ConvertFailed string string error

subsection \<open>Data model\<close>

record NetConf =
  CNIVersion :: string
  Name :: string
  Type :: string
  Capabilities :: "(string \<times> bool) list"

record NetworkConfig =
  Network :: NetConf
  Bytes :: bytes

record NetworkConfigList =
  list_Name :: string
  list_CNIVersion :: string
  DisableCheck :: bool
  Plugins :: "NetworkConfig list"

text \<open>
  \<^verbatim>\<open>RuntimeConf\<close>. \<open>CapabilityArgs\<close> is \<open>None\<close> for a nil map. The field
  \<^verbatim>\<open>CacheDir\<close> is named \<open>rt_CacheDir\<close>, since \<open>CacheDir\<close> is the package variable.
\<close>

record RuntimeConf =
  ContainerID :: string
  NetNS :: string
  IfName :: string
  Args :: "(string \<times> string) list"
  CapabilityArgs :: "(string \<times> json) list option"
  rt_CacheDir :: string

definition capArg :: "RuntimeConf \<Rightarrow> string \<Rightarrow> json option" where
  "capArg rt capability =
     (case CapabilityArgs rt of None \<Rightarrow> None | Some m \<Rightarrow> map_of m capability)"

text \<open>The values of a \<^verbatim>\<open>map[string]interface{}\<close> overlay handed to \<^verbatim>\<open>InjectConf\<close>.\<close>

datatype 'r iface = VString string | VResult 'r | VMap "(string \<times> json) list"

text \<open>\<^verbatim>\<open>invoke.Args\<close>, the argument set of a local-exec dispatch (built by \<^verbatim>\<open>c.args\<close>).\<close>

record invoke_Args =
  Command :: string
  args_ContainerID :: string
  args_NetNS :: string
  PluginArgs :: "(string \<times> string) list"
  args_IfName :: string
  args_Path :: string

text \<open>
  The request of the three unary RPCs (\<^verbatim>\<open>CNIaddMsg\<close>, \<^verbatim>\<open>CNIcheckMsg\<close>,
  \<^verbatim>\<open>CNIdelMsg\<close> have the same fields) and their replies. \<^verbatim>\<open>CNIcapArgs\<close>, a
  generated struct, is represented by the JSON value it decodes from.
\<close>

record CNImsg =
  msg_Conf :: bytes
  msg_ContainerID :: string
  msg_NetNS :: string
  msg_IfName :: string
  msg_CniArgs :: string
  msg_CapArgs :: json

record CNIaddReply =
  StdOut :: bytes
  add_Error :: string

record CNIreply =
  reply_Error :: string

subsection \<open>The world: file system and the record of effects\<close>

text \<open>
  The file system is the list of its nodes, each under its (lexically clean) path and
  looked up with \<open>map_of\<close>; the mode kept in a node is the permission argument it was
  created with. Every effect the driver has on the outside
  is appended to \<open>events\<close>: each file-system call and each plugin dispatch, local or
  remote, in the order they happen.
\<close>

datatype node = File nat bytes | Directory nat

datatype event =
    ReadFile_ev string
  | MkdirAll_ev string nat
  | WriteFile_ev string bytes nat
  | Remove_ev string
  | ExecPlugin_ev string bytes invoke_Args
  | RPC_ev string CNImsg

record world =
  fs :: "(string \<times> node) list"
  events :: "event list"

definition log_event :: "event \<Rightarrow> world \<Rightarrow> world" where
  "log_event e w = w\<lparr>events := events w @ [e]\<rparr>"

subsection \<open>Collaborators\<close>

text \<open>
  The functions \<^verbatim>\<open>api.go\<close> calls in \<^verbatim>\<open>pkg/version\<close>, \<^verbatim>\<open>pkg/types\<close>,
  \<^verbatim>\<open>pkg/invoke\<close>, \<^verbatim>\<open>encoding/json\<close> and the generated gRPC client. A plugin's
  answer may depend on everything that happened before the dispatch, so the transport
  functions read the events so far. What a plugin itself does to the file system is
  outside the model.
\<close>

record 'r env =
  GreaterThanOrEqualTo :: "string \<Rightarrow> string \<Rightarrow> error + bool"
  Decode :: "bytes \<Rightarrow> error + string"
  NewResult :: "string \<Rightarrow> bytes \<Rightarrow> error + 'r"
  GetAsVersion :: "'r \<Rightarrow> string \<Rightarrow> 'r option \<times> error option"
  Marshal :: "'r \<Rightarrow> error + bytes"
  UnmarshalCapArgs :: "bytes \<Rightarrow> error + json"
  FindInPath :: "string \<Rightarrow> string list \<Rightarrow> error + string"
  ExecPluginWithResult :: "event list \<Rightarrow> string \<Rightarrow> bytes \<Rightarrow> invoke_Args \<Rightarrow> error + 'r"
  ExecPluginWithoutResult :: "event list \<Rightarrow> string \<Rightarrow> bytes \<Rightarrow> invoke_Args \<Rightarrow> error option"
  CNIadd :: "event list \<Rightarrow> CNImsg \<Rightarrow> error + CNIaddReply"
  CNIcheck :: "event list \<Rightarrow> CNImsg \<Rightarrow> error + CNIreply"
  CNIdel :: "event list \<Rightarrow> CNImsg \<Rightarrow> error + CNIreply"

text \<open>\<^verbatim>\<open>json.Marshal\<close> of a \<^verbatim>\<open>types.Result\<close> interface value: nil encodes as \<^verbatim>\<open>null\<close>.\<close>

definition json_Marshal :: "'r env \<Rightarrow> 'r option \<Rightarrow> error + bytes" where
  "json_Marshal env result = (case result of None \<Rightarrow> Inr JNull | Some r \<Rightarrow> Marshal env r)"

subsection \<open>Config Editor\<close>

text \<open>
  Modelled from the spec: \<^verbatim>\<open>ConfFromBytes\<close> of \<^verbatim>\<open>libcni/conf.go\<close>, which is not
  among the sources. Section 4.B: the structured view is re-parsed from the raw document;
  section 3: the view holds the plugin type, the protocol version and the declared
  capabilities as a mapping from string to bool; section 7: a structural failure or a
  missing required field is a ConfigInvalid error. An absent optional field reads as
  the zero value.
\<close>

definition string_field :: "(string \<times> json) list \<Rightarrow> string \<Rightarrow> error + string" where
  "string_field m k =
     (case map_of m k of
        None \<Rightarrow> Inr ''''
      | Some (JString s) \<Rightarrow> Inr s
      | Some _ \<Rightarrow> Inl (ConfigInvalid k))"

fun bool_entries :: "(string \<times> json) list \<Rightarrow> error + (string \<times> bool) list" where
  "bool_entries [] = Inr []"
| "bool_entries ((k, JBool b) # rest) =
     (case bool_entries rest of Inl e \<Rightarrow> Inl e | Inr bs \<Rightarrow> Inr ((k, b) # bs))"
| "bool_entries ((k, _) # rest) = Inl (ConfigInvalid ''capabilities'')"

definition capabilities_field :: "(string \<times> json) list \<Rightarrow> error + (string \<times> bool) list" where
  "capabilities_field m =
     (case map_of m ''capabilities'' of
        None \<Rightarrow> Inr []
      | Some (JObject cs) \<Rightarrow> bool_entries (AList.clearjunk cs)
      | Some _ \<Rightarrow> Inl (ConfigInvalid ''capabilities''))"

definition ConfFromBytes :: "bytes \<Rightarrow> error + NetworkConfig" where
  "ConfFromBytes b =
     (case b of
        JObject m \<Rightarrow>
          (case string_field m ''cniVersion'' of Inl e \<Rightarrow> Inl e | Inr v \<Rightarrow>
           case string_field m ''name'' of Inl e \<Rightarrow> Inl e | Inr n \<Rightarrow>
           case string_field m ''type'' of Inl e \<Rightarrow> Inl e | Inr t \<Rightarrow>
           case capabilities_field m of Inl e \<Rightarrow> Inl e | Inr cs \<Rightarrow>
           if t = '''' then Inl (ConfigInvalid ''type'')
           else Inr \<lparr>Network = \<lparr>CNIVersion = v, Name = n, Type = t, Capabilities = cs\<rparr>,
                     Bytes = b\<rparr>)
      | _ \<Rightarrow> Inl (ConfigInvalid ''config''))"

text \<open>
  Modelled from the spec: \<^verbatim>\<open>InjectConf\<close> of \<^verbatim>\<open>libcni/conf.go\<close>, which is not
  among the sources. Section 4.B: it returns a new configuration whose raw document is
  the original one with the keys of the overlay set at top level (overwriting
  collisions), re-serialized, and whose structured view is re-parsed from the new raw
  document; the original is not changed. Serializing an overlay value that is a result
  uses the result's JSON encoding and fails when that fails.
\<close>

fun encode :: "'r env \<Rightarrow> 'r iface \<Rightarrow> error + json" where
  "encode env (VString s) = Inr (JString s)"
| "encode env (VResult r) = Marshal env r"
| "encode env (VMap m) = Inr (JObject m)"

fun set_keys ::
  "'r env \<Rightarrow> (string \<times> 'r iface) list \<Rightarrow> (string \<times> json) list \<Rightarrow> error + (string \<times> json) list"
where
  "set_keys env [] config = Inr config"
| "set_keys env ((key, val) # rest) config =
     (case encode env val of
        Inl e \<Rightarrow> Inl e
      | Inr j \<Rightarrow> set_keys env rest (AList.update key j config))"

definition InjectConf ::
  "'r env \<Rightarrow> NetworkConfig \<Rightarrow> (string \<times> 'r iface) list \<Rightarrow> error + NetworkConfig"
where
  "InjectConf env original newValues =
     (case Bytes original of
        JObject config \<Rightarrow>
          (case set_keys env newValues config of
             Inl e \<Rightarrow> Inl e
           | Inr config' \<Rightarrow> ConfFromBytes (JObject config'))
      | _ \<Rightarrow> Inl (ConfigInvalid ''config''))"

text \<open>
  \<^verbatim>\<open>injectRuntimeConfig\<close>: the loop over the plugin's capabilities builds \<open>rc\<close>; it
  is injected under \<^verbatim>\<open>runtimeConfig\<close> when it is not empty.
\<close>

fun runtimeConfig_loop ::
  "(string \<times> bool) list \<Rightarrow> RuntimeConf \<Rightarrow> (string \<times> json) list \<Rightarrow> (string \<times> json) list"
where
  "runtimeConfig_loop [] rt rc = rc"
| "runtimeConfig_loop ((capability, supported) # rest) rt rc =
     (if \<not> supported then runtimeConfig_loop rest rt rc
      else case capArg rt capability of
             Some data \<Rightarrow> runtimeConfig_loop rest rt (AList.update capability data rc)
           | None \<Rightarrow> runtimeConfig_loop rest rt rc)"

definition injectRuntimeConfig ::
  "'r env \<Rightarrow> NetworkConfig \<Rightarrow> RuntimeConf \<Rightarrow> error + NetworkConfig"
where
  "injectRuntimeConfig env orig rt =
     (let rc = runtimeConfig_loop (Capabilities (Network orig)) rt []
      in if length rc > 0 then InjectConf env orig [(''runtimeConfig'', VMap rc)]
         else Inr orig)"

text \<open>\<^verbatim>\<open>buildOneConfig\<close>: the derived configuration of one plugin dispatch.\<close>

definition buildOneConfig ::
  "'r env \<Rightarrow> string \<Rightarrow> string \<Rightarrow> NetworkConfig \<Rightarrow> 'r option \<Rightarrow> RuntimeConf
     \<Rightarrow> error + NetworkConfig"
where
  "buildOneConfig env name cniVersion orig prevResult rt =
     (let inject = [(''name'', VString name), (''cniVersion'', VString cniVersion)]
                   @ (case prevResult of
                        None \<Rightarrow> []
                      | Some r \<Rightarrow> [(''prevResult'', VResult r)])
      in case InjectConf env orig inject of
           Inl err \<Rightarrow> Inl err
         | Inr orig' \<Rightarrow> injectRuntimeConfig env orig' rt)"

subsection \<open>Paths\<close>

text \<open>
  \<^verbatim>\<open>strings.Join\<close>, \<^verbatim>\<open>strings.Split\<close> on one separator character, and the Unix
  forms of \<^verbatim>\<open>filepath.Clean\<close>, \<^verbatim>\<open>filepath.Join\<close> and \<^verbatim>\<open>filepath.Dir\<close>.
  \<open>Clean\<close> follows the rules of its documentation: runs of separators collapse, a
  \<^verbatim>\<open>.\<close> element is dropped, a \<^verbatim>\<open>..\<close> element removes the element before it (and
  is dropped at the root), no trailing separator remains, and the empty path is \<^verbatim>\<open>.\<close>
\<close>

fun strings_Join :: "string list \<Rightarrow> string \<Rightarrow> string" where
  "strings_Join [] sep = ''''"
| "strings_Join [e] sep = e"
| "strings_Join (e # es) sep = e @ sep @ strings_Join es sep"

fun strings_Split :: "string \<Rightarrow> char \<Rightarrow> string list" where
  "strings_Split [] sep = [[]]"
| "strings_Split (x # xs) sep =
     (if x = sep then [] # strings_Split xs sep
      else case strings_Split xs sep of
             [] \<Rightarrow> [[x]]
           | e # es \<Rightarrow> (x # e) # es)"

text \<open>The elements kept so far are held newest first.\<close>

fun clean_elements :: "bool \<Rightarrow> string list \<Rightarrow> string list \<Rightarrow> string list" where
  "clean_elements rooted [] out = out"
| "clean_elements rooted (e # es) out =
     (if e = '''' \<or> e = ''.'' then clean_elements rooted es out
      else if e = ''..'' then
        (case out of
           [] \<Rightarrow> clean_elements rooted es (if rooted then [] else [''..''])
         | e' # below \<Rightarrow>
             if e' = ''..'' then clean_elements rooted es (''..'' # out)
             else clean_elements rooted es below)
      else clean_elements rooted es (e # out))"

definition filepath_Clean :: "string \<Rightarrow> string" where
  "filepath_Clean path =
     (let rooted = (path \<noteq> [] \<and> hd path = CHR ''/'');
          out = rev (clean_elements rooted (strings_Split path CHR ''/'') []);
          cleaned = (if rooted then ''/'' else '''') @ strings_Join out ''/''
      in if cleaned = '''' then ''.'' else cleaned)"

fun filepath_Join :: "string list \<Rightarrow> string" where
  "filepath_Join [] = ''''"
| "filepath_Join (e # es) =
     (if e \<noteq> '''' then filepath_Clean (strings_Join (e # es) ''/'') else filepath_Join es)"

definition filepath_Dir :: "string \<Rightarrow> string" where
  "filepath_Dir path = filepath_Clean (rev (dropWhile (\<lambda>c. c \<noteq> CHR ''/'') (rev path)))"

subsection \<open>File-system calls\<close>

text \<open>
  The calls of package \<^verbatim>\<open>os\<close> and \<^verbatim>\<open>ioutil\<close> that the cache uses, on the list of
  nodes. A node's parent is the node at \<open>filepath_Dir\<close> of its path. Permission checks
  against the caller's identity and the umask are not modelled.
\<close>

type_synonym filesys = "(string \<times> node) list"

definition ReadFile :: "string \<Rightarrow> filesys \<Rightarrow> errno + bytes" where
  "ReadFile name f =
     (case map_of f name of
        None \<Rightarrow> Inl ENOENT
      | Some (Directory _) \<Rightarrow> Inl EISDIR
      | Some (File _ data) \<Rightarrow> Inr data)"

text \<open>
  \<^verbatim>\<open>ioutil.WriteFile\<close>: an existing file is truncated and keeps its mode, a missing one
  is created with \<open>perm\<close>.
\<close>

definition WriteFile :: "string \<Rightarrow> bytes \<Rightarrow> nat \<Rightarrow> filesys \<Rightarrow> errno option \<times> filesys" where
  "WriteFile name data perm f =
     (case map_of f name of
        Some (Directory _) \<Rightarrow> (Some EISDIR, f)
      | Some (File mode _) \<Rightarrow> (None, AList.update name (File mode data) f)
      | None \<Rightarrow>
          (case map_of f (filepath_Dir name) of
             None \<Rightarrow> (Some ENOENT, f)
           | Some (File _ _) \<Rightarrow> (Some ENOTDIR, f)
           | Some (Directory _) \<Rightarrow> (None, AList.update name (File perm data) f)))"

definition Mkdir :: "string \<Rightarrow> nat \<Rightarrow> filesys \<Rightarrow> errno option \<times> filesys" where
  "Mkdir path perm f =
     (case map_of f path of
        Some _ \<Rightarrow> (Some EEXIST, f)
      | None \<Rightarrow>
          (case map_of f (filepath_Dir path) of
             None \<Rightarrow> (Some ENOENT, f)
           | Some (File _ _) \<Rightarrow> (Some ENOTDIR, f)
           | Some (Directory _) \<Rightarrow> (None, AList.update path (Directory perm) f)))"

text \<open>
  \<^verbatim>\<open>os.MkdirAll\<close>: nothing to do for a directory; otherwise the parent (the path
  before the last element, found at index \<open>element_start\<close>) is made first, then the
  directory itself, and a failure of that last step is forgiven when the directory is
  there after all.
\<close>

definition element_start :: "string \<Rightarrow> nat" where
  "element_start path =
     length (dropWhile (\<lambda>c. c \<noteq> CHR ''/'') (dropWhile (\<lambda>c. c = CHR ''/'') (rev path)))"

definition Mkdir_last :: "string \<Rightarrow> nat \<Rightarrow> filesys \<Rightarrow> errno option \<times> filesys" where
  "Mkdir_last path perm f =
     (case Mkdir path perm f of
        (None, f') \<Rightarrow> (None, f')
      | (Some e, f') \<Rightarrow>
          (case map_of f' path of
             Some (Directory _) \<Rightarrow> (None, f')
           | _ \<Rightarrow> (Some e, f')))"

function MkdirAll :: "string \<Rightarrow> nat \<Rightarrow> filesys \<Rightarrow> errno option \<times> filesys" where
  "MkdirAll path perm f =
     (case map_of f path of
        Some (Directory _) \<Rightarrow> (None, f)
      | Some (File _ _) \<Rightarrow> (Some ENOTDIR, f)
      | None \<Rightarrow>
          if element_start path > 1 then
            (case MkdirAll (take (element_start path - 1) path) perm f of
               (Some e, f') \<Rightarrow> (Some e, f')
             | (None, f') \<Rightarrow> Mkdir_last path perm f')
          else Mkdir_last path perm f)"
  by pat_completeness auto

lemma element_start_le: "element_start path \<le> length path"
proof -
  have "element_start path \<le> length (dropWhile (\<lambda>c. c = CHR ''/'') (rev path))"
    unfolding element_start_def by (rule length_dropWhile_le)
  also have "\<dots> \<le> length (rev path)"
    by (rule length_dropWhile_le)
  finally show ?thesis by simp
qed

termination MkdirAll
proof (relation "measure (\<lambda>(path, perm, f). length path)")
  show "wf (measure (\<lambda>(path, perm, f). length path))"
    by simp
next
  fix path :: string and perm :: nat and f :: filesys
  assume "1 < element_start path"
  with element_start_le [of path]
  show "((take (element_start path - 1) path, perm, f), (path, perm, f))
          \<in> measure (\<lambda>(path, perm, f). length path)"
    by simp
qed

declare MkdirAll.simps [simp del]

text \<open>\<^verbatim>\<open>os.Remove\<close>: a file, or a directory without entries.\<close>

definition Remove :: "string \<Rightarrow> filesys \<Rightarrow> errno option \<times> filesys" where
  "Remove name f =
     (case map_of f name of
        None \<Rightarrow> (Some ENOENT, f)
      | Some (File _ _) \<Rightarrow> (None, AList.delete name f)
      | Some (Directory _) \<Rightarrow>
          if list_ex (\<lambda>(p, n). p \<noteq> name \<and> filepath_Dir p = name) f then (Some ENOTEMPTY, f)
          else (None, AList.delete name f))"

text \<open>The same calls on the world: each is recorded, then acts on the file system.\<close>

definition os_ReadFile :: "string \<Rightarrow> world \<Rightarrow> (errno + bytes) \<times> world" where
  "os_ReadFile name w = (ReadFile name (fs w), log_event (ReadFile_ev name) w)"

definition os_MkdirAll :: "string \<Rightarrow> nat \<Rightarrow> world \<Rightarrow> errno option \<times> world" where
  "os_MkdirAll path perm w =
     (case MkdirAll path perm (fs w) of
        (err, f') \<Rightarrow> (err, (log_event (MkdirAll_ev path perm) w)\<lparr>fs := f'\<rparr>))"

definition os_WriteFile :: "string \<Rightarrow> bytes \<Rightarrow> nat \<Rightarrow> world \<Rightarrow> errno option \<times> world" where
  "os_WriteFile name data perm w =
     (case WriteFile name data perm (fs w) of
        (err, f') \<Rightarrow> (err, (log_event (WriteFile_ev name data perm) w)\<lparr>fs := f'\<rparr>))"

definition os_Remove :: "string \<Rightarrow> world \<Rightarrow> errno option \<times> world" where
  "os_Remove name w =
     (case Remove name (fs w) of
        (err, f') \<Rightarrow> (err, (log_event (Remove_ev name) w)\<lparr>fs := f'\<rparr>))"

subsection \<open>Result cache\<close>

text \<open>
  The package variable \<^verbatim>\<open>CacheDir\<close> at its initial value, and the two permission
  arguments, written \<^verbatim>\<open>0700\<close> and \<^verbatim>\<open>0600\<close> (octal) in the source.
\<close>

definition CacheDir :: string where
  "CacheDir = ''/var/lib/cni''"

definition mode_0700 :: nat where
  "mode_0700 = 7 * 64"

definition mode_0600 :: nat where
  "mode_0600 = 6 * 64"

definition getResultCacheFilePath :: "string \<Rightarrow> RuntimeConf \<Rightarrow> string" where
  "getResultCacheFilePath netName rt =
     (let cacheDir = (if rt_CacheDir rt = '''' then CacheDir else rt_CacheDir rt)
      in filepath_Join
           [cacheDir, ''results'', netName @ ''-'' @ ContainerID rt @ ''-'' @ IfName rt])"

definition setCachedResult ::
  "'r env \<Rightarrow> 'r option \<Rightarrow> string \<Rightarrow> RuntimeConf \<Rightarrow> world \<Rightarrow> error option \<times> world"
where
  "setCachedResult env result netName rt w =
     (case json_Marshal env result of
        Inl err \<Rightarrow> (Some err, w)
      | Inr data \<Rightarrow>
          (let fname = getResultCacheFilePath netName rt in
           case os_MkdirAll (filepath_Dir fname) mode_0700 w of
             (Some e, w1) \<Rightarrow> (Some (PathError e), w1)
           | (None, w1) \<Rightarrow>
               (case os_WriteFile fname data mode_0600 w1 of
                  (err, w2) \<Rightarrow> (map_option PathError err, w2))))"

definition delCachedResult :: "string \<Rightarrow> RuntimeConf \<Rightarrow> world \<Rightarrow> error option \<times> world" where
  "delCachedResult netName rt w =
     (let fname = getResultCacheFilePath netName rt in
      case os_Remove fname w of (err, w1) \<Rightarrow> (map_option PathError err, w1))"

text \<open>
  \<^verbatim>\<open>getCachedResult\<close> returns the pair \<^verbatim>\<open>(result, err)\<close>; its last statement
  returns both as \<^verbatim>\<open>GetAsVersion\<close> gave them.
\<close>

definition getCachedResult ::
  "'r env \<Rightarrow> string \<Rightarrow> string \<Rightarrow> RuntimeConf \<Rightarrow> world
     \<Rightarrow> ('r option \<times> error option) \<times> world"
where
  "getCachedResult env netName cniVersion rt w =
     (let fname = getResultCacheFilePath netName rt in
      case os_ReadFile fname w of
        (Inl err, w1) \<Rightarrow> ((None, None), w1)
      | (Inr data, w1) \<Rightarrow>
          (case Decode env data of
             Inl err \<Rightarrow> ((None, Some err), w1)
           | Inr resultCniVersion \<Rightarrow>
               (case NewResult env resultCniVersion data of
                  Inl err \<Rightarrow> ((None, Some err), w1)
                | Inr result \<Rightarrow>
                    (case GetAsVersion env result cniVersion of
                       (result', err) \<Rightarrow>
                         if err \<noteq> None \<and> resultCniVersion \<noteq> cniVersion
                         then ((None,
                                map_option (ConvertFailed resultCniVersion cniVersion) err), w1)
                         else ((result', err), w1)))))"

subsection \<open>Plugin dispatch\<close>

text \<open>
  What a call of the driver ends in: a value, an error, or the end of the process
  (\<^verbatim>\<open>log.Fatalf\<close> prints and calls \<^verbatim>\<open>os.Exit(1)\<close>; nothing is returned).
\<close>

datatype 'a outcome = Ok 'a | Err error | Exited

record CNIConfig =
  Path :: "string list"
  ClientgRPC :: bool

fun stringFromArgs :: "(string \<times> string) list \<Rightarrow> string" where
  "stringFromArgs [] = ''''"
| "stringFromArgs ((k, v) # pairs) = k @ ''='' @ v @ '';'' @ stringFromArgs pairs"

definition args :: "CNIConfig \<Rightarrow> string \<Rightarrow> RuntimeConf \<Rightarrow> invoke_Args" where
  "args c action rt =
     \<lparr>Command = action,
      args_ContainerID = ContainerID rt,
      args_NetNS = NetNS rt,
      PluginArgs = Args rt,
      args_IfName = IfName rt,
      args_Path = strings_Join (Path c) '':''\<rparr>"

text \<open>
  The three senders. The message's \<^verbatim>\<open>ContainerID\<close> is never set. An RPC error
  reaches \<^verbatim>\<open>log.Fatalf\<close>; otherwise the reply's \<^verbatim>\<open>Error\<close> string is only written
  to the log, and the sender returns nil (with \<^verbatim>\<open>StdOut\<close> for ADD).
\<close>

definition gRPCmsg :: "bytes \<Rightarrow> string \<Rightarrow> string \<Rightarrow> string \<Rightarrow> json \<Rightarrow> CNImsg" where
  "gRPCmsg conf netns ifName cniArgs capArgs =
     \<lparr>msg_Conf = conf, msg_ContainerID = '''', msg_NetNS = netns, msg_IfName = ifName,
      msg_CniArgs = cniArgs, msg_CapArgs = capArgs\<rparr>"

definition gRPCsendAdd ::
  "'r env \<Rightarrow> bytes \<Rightarrow> string \<Rightarrow> string \<Rightarrow> string \<Rightarrow> json \<Rightarrow> world \<Rightarrow> bytes outcome \<times> world"
where
  "gRPCsendAdd env conf netns ifName cniArgs capArgs w =
     (let cniAddMsg = gRPCmsg conf netns ifName cniArgs capArgs;
          w1 = log_event (RPC_ev ''CNIadd'' cniAddMsg) w
      in case CNIadd env (events w) cniAddMsg of
           Inl err \<Rightarrow> (Exited, w1)
         | Inr resultAdd \<Rightarrow> (Ok (StdOut resultAdd), w1))"

definition gRPCsendCheck ::
  "'r env \<Rightarrow> bytes \<Rightarrow> string \<Rightarrow> string \<Rightarrow> string \<Rightarrow> json \<Rightarrow> world \<Rightarrow> unit outcome \<times> world"
where
  "gRPCsendCheck env conf netns ifName cniArgs capArgs w =
     (let cniCheckMsg = gRPCmsg conf netns ifName cniArgs capArgs;
          w1 = log_event (RPC_ev ''CNIcheck'' cniCheckMsg) w
      in case CNIcheck env (events w) cniCheckMsg of
           Inl err \<Rightarrow> (Exited, w1)
         | Inr resultCheck \<Rightarrow> (Ok (), w1))"

definition gRPCsendDel ::
  "'r env \<Rightarrow> bytes \<Rightarrow> string \<Rightarrow> string \<Rightarrow> string \<Rightarrow> json \<Rightarrow> world \<Rightarrow> unit outcome \<times> world"
where
  "gRPCsendDel env conf netns ifName cniArgs capArgs w =
     (let cniMsg = gRPCmsg conf netns ifName cniArgs capArgs;
          w1 = log_event (RPC_ev ''CNIdel'' cniMsg) w
      in case CNIdel env (events w) cniMsg of
           Inl err \<Rightarrow> (Exited, w1)
         | Inr resultDel \<Rightarrow> (Ok (), w1))"

text \<open>
  The opening that \<^verbatim>\<open>addNetwork\<close>, \<^verbatim>\<open>checkNetwork\<close> and \<^verbatim>\<open>delNetwork\<close> share
  word for word: find the plugin, build the derived configuration, pass the capability
  arguments through JSON into a \<^verbatim>\<open>CNIcapArgs\<close> (the zero value when the map is nil),
  and join the argument pairs. It returns at the first error. The capability arguments
  are JSON values, so \<^verbatim>\<open>json.Marshal\<close> of the map gives the object with these
  entries; only \<^verbatim>\<open>json.Unmarshal\<close> into the struct can fail.
\<close>

definition prepare ::
  "'r env \<Rightarrow> CNIConfig \<Rightarrow> string \<Rightarrow> string \<Rightarrow> NetworkConfig \<Rightarrow> 'r option \<Rightarrow> RuntimeConf
     \<Rightarrow> error + (string \<times> NetworkConfig \<times> json \<times> string)"
where
  "prepare env c name cniVersion net prevResult rt =
     (case FindInPath env (Type (Network net)) (Path c) of
        Inl err \<Rightarrow> Inl err
      | Inr pluginPath \<Rightarrow>
          (case buildOneConfig env name cniVersion net prevResult rt of
             Inl err \<Rightarrow> Inl err
           | Inr newConf \<Rightarrow>
               (case (case CapabilityArgs rt of
                        None \<Rightarrow> Inr (JObject [])
                      | Some m \<Rightarrow> UnmarshalCapArgs env (JObject m)) of
                  Inl err \<Rightarrow> Inl err
                | Inr capabilityArgs \<Rightarrow>
                    (let cniArgs = (if length (Args rt) > 0 then stringFromArgs (Args rt)
                                    else '''')
                     in Inr (pluginPath, newConf, capabilityArgs, cniArgs)))))"

definition addNetwork ::
  "'r env \<Rightarrow> CNIConfig \<Rightarrow> string \<Rightarrow> string \<Rightarrow> NetworkConfig \<Rightarrow> 'r option \<Rightarrow> RuntimeConf
     \<Rightarrow> world \<Rightarrow> 'r outcome \<times> world"
where
  "addNetwork env c name cniVersion net prevResult rt w =
     (case prepare env c name cniVersion net prevResult rt of
        Inl err \<Rightarrow> (Err err, w)
      | Inr (pluginPath, newConf, capabilityArgs, cniArgs) \<Rightarrow>
          if \<not> ClientgRPC c then
            (let w1 = log_event (ExecPlugin_ev pluginPath (Bytes newConf) (args c ''ADD'' rt)) w
             in case ExecPluginWithResult env (events w) pluginPath (Bytes newConf)
                       (args c ''ADD'' rt) of
                  Inl err \<Rightarrow> (Err err, w1)
                | Inr result \<Rightarrow> (Ok result, w1))
          else
            (case gRPCsendAdd env (Bytes newConf) (NetNS rt) (IfName rt) cniArgs
                    capabilityArgs w of
               (Exited, w1) \<Rightarrow> (Exited, w1)
             | (Err err, w1) \<Rightarrow> (Err err, w1)
             | (Ok resultString, w1) \<Rightarrow>
                 (case Decode env (Bytes newConf) of
                    Inl err \<Rightarrow> (Err err, w1)
                  | Inr confVersion \<Rightarrow>
                      (case NewResult env confVersion resultString of
                         Inl err \<Rightarrow> (Err err, w1)
                       | Inr result \<Rightarrow> (Ok result, w1)))))"

definition checkNetwork ::
  "'r env \<Rightarrow> CNIConfig \<Rightarrow> string \<Rightarrow> string \<Rightarrow> NetworkConfig \<Rightarrow> 'r option \<Rightarrow> RuntimeConf
     \<Rightarrow> world \<Rightarrow> unit outcome \<times> world"
where
  "checkNetwork env c name cniVersion net prevResult rt w =
     (case prepare env c name cniVersion net prevResult rt of
        Inl err \<Rightarrow> (Err err, w)
      | Inr (pluginPath, newConf, capabilityArgs, cniArgs) \<Rightarrow>
          if \<not> ClientgRPC c then
            (let w1 = log_event (ExecPlugin_ev pluginPath (Bytes newConf) (args c ''CHECK'' rt)) w
             in case ExecPluginWithoutResult env (events w) pluginPath (Bytes newConf)
                       (args c ''CHECK'' rt) of
                  Some err \<Rightarrow> (Err err, w1)
                | None \<Rightarrow> (Ok (), w1))
          else
            gRPCsendCheck env (Bytes newConf) (NetNS rt) (IfName rt) cniArgs capabilityArgs w)"

definition delNetwork ::
  "'r env \<Rightarrow> CNIConfig \<Rightarrow> string \<Rightarrow> string \<Rightarrow> NetworkConfig \<Rightarrow> 'r option \<Rightarrow> RuntimeConf
     \<Rightarrow> world \<Rightarrow> unit outcome \<times> world"
where
  "delNetwork env c name cniVersion net prevResult rt w =
     (case prepare env c name cniVersion net prevResult rt of
        Inl err \<Rightarrow> (Err err, w)
      | Inr (pluginPath, newConf, capabilityArgs, cniArgs) \<Rightarrow>
          if \<not> ClientgRPC c then
            (let w1 = log_event (ExecPlugin_ev pluginPath (Bytes newConf) (args c ''DEL'' rt)) w
             in case ExecPluginWithoutResult env (events w) pluginPath (Bytes newConf)
                       (args c ''DEL'' rt) of
                  Some err \<Rightarrow> (Err err, w1)
                | None \<Rightarrow> (Ok (), w1))
          else
            gRPCsendDel env (Bytes newConf) (NetNS rt) (IfName rt) cniArgs capabilityArgs w)"

subsection \<open>Chain driver\<close>

text \<open>\<^verbatim>\<open>AddNetworkList\<close>: the loop over \<^verbatim>\<open>list.Plugins\<close>, then the cache write.\<close>

fun AddNetworkList_loop ::
  "'r env \<Rightarrow> CNIConfig \<Rightarrow> NetworkConfigList \<Rightarrow> NetworkConfig list \<Rightarrow> 'r option \<Rightarrow> RuntimeConf
     \<Rightarrow> world \<Rightarrow> 'r option outcome \<times> world"
where
  "AddNetworkList_loop env c list [] result rt w = (Ok result, w)"
| "AddNetworkList_loop env c list (net # rest) result rt w =
     (case addNetwork env c (list_Name list) (list_CNIVersion list) net result rt w of
        (Ok result', w1) \<Rightarrow> AddNetworkList_loop env c list rest (Some result') rt w1
      | (Err err, w1) \<Rightarrow> (Err err, w1)
      | (Exited, w1) \<Rightarrow> (Exited, w1))"

definition AddNetworkList ::
  "'r env \<Rightarrow> CNIConfig \<Rightarrow> NetworkConfigList \<Rightarrow> RuntimeConf \<Rightarrow> world
     \<Rightarrow> 'r option outcome \<times> world"
where
  "AddNetworkList env c list rt w =
     (case AddNetworkList_loop env c list (Plugins list) None rt w of
        (Ok result, w1) \<Rightarrow>
          (case setCachedResult env result (list_Name list) rt w1 of
             (Some err, w2) \<Rightarrow> (Err (SetCacheFailed (list_Name list) err), w2)
           | (None, w2) \<Rightarrow> (Ok result, w2))
      | (Err err, w1) \<Rightarrow> (Err err, w1)
      | (Exited, w1) \<Rightarrow> (Exited, w1))"

text \<open>\<^verbatim>\<open>CheckNetworkList\<close>: the version gate, the switch, the cache read, the loop.\<close>

fun CheckNetworkList_loop ::
  "'r env \<Rightarrow> CNIConfig \<Rightarrow> NetworkConfigList \<Rightarrow> NetworkConfig list \<Rightarrow> 'r option \<Rightarrow> RuntimeConf
     \<Rightarrow> world \<Rightarrow> unit outcome \<times> world"
where
  "CheckNetworkList_loop env c list [] cachedResult rt w = (Ok (), w)"
| "CheckNetworkList_loop env c list (net # rest) cachedResult rt w =
     (case checkNetwork env c (list_Name list) (list_CNIVersion list) net cachedResult rt w of
        (Ok _, w1) \<Rightarrow> CheckNetworkList_loop env c list rest cachedResult rt w1
      | (Err err, w1) \<Rightarrow> (Err err, w1)
      | (Exited, w1) \<Rightarrow> (Exited, w1))"

definition CheckNetworkList ::
  "'r env \<Rightarrow> CNIConfig \<Rightarrow> NetworkConfigList \<Rightarrow> RuntimeConf \<Rightarrow> world \<Rightarrow> unit outcome \<times> world"
where
  "CheckNetworkList env c list rt w =
     (case GreaterThanOrEqualTo env (list_CNIVersion list) ''0.4.0'' of
        Inl err \<Rightarrow> (Err err, w)
      | Inr gtet \<Rightarrow>
          if \<not> gtet then (Err (CheckUnsupported (list_CNIVersion list)), w)
          else if DisableCheck list then (Ok (), w)
          else
            (case getCachedResult env (list_Name list) (list_CNIVersion list) rt w of
               ((cachedResult, Some err), w1) \<Rightarrow> (Err (GetCacheFailed (list_Name list) err), w1)
             | ((cachedResult, None), w1) \<Rightarrow>
                 CheckNetworkList_loop env c list (Plugins list) cachedResult rt w1))"

text \<open>
  \<^verbatim>\<open>DelNetworkList\<close>: the loop counts \<^verbatim>\<open>i\<close> down from \<^verbatim>\<open>len(list.Plugins) - 1\<close>
  to 0; the loop function takes \<open>i + 1\<close>.
\<close>

fun DelNetworkList_loop ::
  "'r env \<Rightarrow> CNIConfig \<Rightarrow> NetworkConfigList \<Rightarrow> nat \<Rightarrow> 'r option \<Rightarrow> RuntimeConf
     \<Rightarrow> world \<Rightarrow> unit outcome \<times> world"
where
  "DelNetworkList_loop env c list 0 cachedResult rt w = (Ok (), w)"
| "DelNetworkList_loop env c list (Suc i) cachedResult rt w =
     (let net = Plugins list ! i in
      case delNetwork env c (list_Name list) (list_CNIVersion list) net cachedResult rt w of
        (Ok _, w1) \<Rightarrow> DelNetworkList_loop env c list i cachedResult rt w1
      | (Err err, w1) \<Rightarrow> (Err err, w1)
      | (Exited, w1) \<Rightarrow> (Exited, w1))"

definition DelNetworkList ::
  "'r env \<Rightarrow> CNIConfig \<Rightarrow> NetworkConfigList \<Rightarrow> RuntimeConf \<Rightarrow> world \<Rightarrow> unit outcome \<times> world"
where
  "DelNetworkList env c list rt w =
     (case GreaterThanOrEqualTo env (list_CNIVersion list) ''0.4.0'' of
        Inl err \<Rightarrow> (Err err, w)
      | Inr gtet \<Rightarrow>
          (case (if gtet
                 then getCachedResult env (list_Name list) (list_CNIVersion list) rt w
                 else ((None, None), w)) of
             ((cachedResult, Some err), w1) \<Rightarrow> (Err (GetCacheFailed (list_Name list) err), w1)
           | ((cachedResult, None), w1) \<Rightarrow>
               (case DelNetworkList_loop env c list (length (Plugins list)) cachedResult rt w1 of
                  (Ok _, w2) \<Rightarrow>
                    (case delCachedResult (list_Name list) rt w2 of (_, w3) \<Rightarrow> (Ok (), w3))
                | (Err err, w2) \<Rightarrow> (Err err, w2)
                | (Exited, w2) \<Rightarrow> (Exited, w2))))"

subsection \<open>Reading the record of effects\<close>

text \<open>
  The command and the configuration document that an event hands to a plugin, if it
  is a dispatch: a local execution or one of the three RPCs.
\<close>

definition rpc_command :: "string \<Rightarrow> string" where
  "rpc_command method =
     (if method = ''CNIadd'' then ''ADD''
      else if method = ''CNIcheck'' then ''CHECK''
      else if method = ''CNIdel'' then ''DEL''
      else '''')"

fun dispatch_of :: "event \<Rightarrow> (string \<times> bytes) option" where
  "dispatch_of (ExecPlugin_ev pluginPath conf a) = Some (Command a, conf)"
| "dispatch_of (RPC_ev method msg) = Some (rpc_command method, msg_Conf msg)"
| "dispatch_of (ReadFile_ev name) = None"
| "dispatch_of (MkdirAll_ev path perm) = None"
| "dispatch_of (WriteFile_ev name data perm) = None"
| "dispatch_of (Remove_ev name) = None"

subsection \<open>A sample environment and sample inputs\<close>

text \<open>
  A concrete environment for the closed examples: a result is its own JSON encoding;
  versions are compared by their place in a table of known versions; a cached result
  converts to a version only if it already declares it; a plugin is found in the first
  directory of the search path; the plugin called \<^verbatim>\<open>fail\<close> fails, every other one
  answers with a result that names it.
\<close>

definition known_versions :: "string list" where
  "known_versions = [''0.1.0'', ''0.2.0'', ''0.3.0'', ''0.3.1'', ''0.4.0'']"

fun index_of :: "string \<Rightarrow> string list \<Rightarrow> nat option" where
  "index_of v [] = None"
| "index_of v (x # xs) = (if v = x then Some 0 else map_option Suc (index_of v xs))"

definition sample_gte :: "string \<Rightarrow> string \<Rightarrow> error + bool" where
  "sample_gte v other =
     (case (index_of v known_versions, index_of other known_versions) of
        (Some i, Some j) \<Rightarrow> Inr (j \<le> i)
      | _ \<Rightarrow> Inl (Opaque ''invalid version''))"

definition sample_Decode :: "bytes \<Rightarrow> error + string" where
  "sample_Decode data =
     (case field data ''cniVersion'' of
        Some (JString v) \<Rightarrow> Inr v
      | _ \<Rightarrow> Inl (Opaque ''decoding version''))"

definition sample_NewResult :: "string \<Rightarrow> bytes \<Rightarrow> error + json" where
  "sample_NewResult v data =
     (if v \<in> set known_versions then Inr data else Inl (Opaque ''unsupported version''))"

definition sample_GetAsVersion :: "json \<Rightarrow> string \<Rightarrow> json option \<times> error option" where
  "sample_GetAsVersion result v =
     (if field result ''cniVersion'' = Some (JString v) then (Some result, None)
      else (None, Some (Opaque ''cannot convert'')))"

definition sample_FindInPath :: "string \<Rightarrow> string list \<Rightarrow> error + string" where
  "sample_FindInPath plugin paths =
     (case paths of
        [] \<Rightarrow> Inl (Opaque ''no plugin name or search path'')
      | dir # _ \<Rightarrow> Inr (dir @ ''/'' @ plugin))"

definition sample_result :: "string \<Rightarrow> json" where
  "sample_result pluginPath =
     JObject [(''cniVersion'', JString ''0.4.0''), (''madeBy'', JString pluginPath)]"

definition sample_env :: "json env" where
  "sample_env =
     \<lparr>GreaterThanOrEqualTo = sample_gte,
      Decode = sample_Decode,
      NewResult = sample_NewResult,
      GetAsVersion = sample_GetAsVersion,
      Marshal = Inr,
      UnmarshalCapArgs = Inr,
      FindInPath = sample_FindInPath,
      ExecPluginWithResult = (\<lambda>evs pluginPath conf a.
        if pluginPath = ''/opt/cni/bin/fail'' then Inl (Opaque ''plugin failed'')
        else Inr (sample_result pluginPath)),
      ExecPluginWithoutResult = (\<lambda>evs pluginPath conf a.
        if pluginPath = ''/opt/cni/bin/fail'' then Some (Opaque ''plugin failed'') else None),
      CNIadd = (\<lambda>evs msg. Inr \<lparr>StdOut = sample_result ''remote'', add_Error = ''''\<rparr>),
      CNIcheck = (\<lambda>evs msg. Inr \<lparr>reply_Error = ''plugin failed''\<rparr>),
      CNIdel = (\<lambda>evs msg. Inr \<lparr>reply_Error = ''plugin failed''\<rparr>)\<rparr>"

text \<open>A plugin configuration as \<^verbatim>\<open>ConfFromBytes\<close> builds it from a document.\<close>

definition sample_doc :: "string \<Rightarrow> (string \<times> bool) list \<Rightarrow> bytes" where
  "sample_doc plugin caps =
     JObject [(''cniVersion'', JString ''0.3.1''), (''name'', JString ''own-name''),
              (''type'', JString plugin),
              (''capabilities'', JObject (map (\<lambda>(k, b). (k, JBool b)) caps))]"

definition sample_plugin :: "string \<Rightarrow> (string \<times> bool) list \<Rightarrow> NetworkConfig" where
  "sample_plugin plugin caps =
     \<lparr>Network = \<lparr>CNIVersion = ''0.3.1'', Name = ''own-name'', Type = plugin,
                 Capabilities = caps\<rparr>,
      Bytes = sample_doc plugin caps\<rparr>"

definition sample_rt :: RuntimeConf where
  "sample_rt =
     \<lparr>ContainerID = ''c1'', NetNS = ''/var/run/netns/c1'', IfName = ''eth0'', Args = [],
      CapabilityArgs = Some [(''portMappings'', JArray [JObject [(''hostPort'', JNumber 8080)]]),
                             (''ipRanges'', JArray [JString ''10.0.0.0/24'']),
                             (''bandwidth'', JObject [(''ingressRate'', JNumber 1000)])],
      rt_CacheDir = ''''\<rparr>"

definition sample_list :: "string \<Rightarrow> NetworkConfig list \<Rightarrow> NetworkConfigList" where
  "sample_list v plugins =
     \<lparr>list_Name = ''net1'', list_CNIVersion = v, DisableCheck = False, Plugins = plugins\<rparr>"

definition sample_config :: CNIConfig where
  "sample_config = \<lparr>Path = [''/opt/cni/bin''], ClientgRPC = False\<rparr>"

text \<open>A file system with the root, the default cache root and nothing else.\<close>

definition sample_world :: world where
  "sample_world =
     \<lparr>fs = [(''/'', Directory 493), (''/var'', Directory 493), (''/var/lib'', Directory 493),
            (''/var/lib/cni'', Directory 493)],
      events = []\<rparr>"

text \<open>
  The sample world after a successful ADD of \<^verbatim>\<open>net1\<close>: the cache file holds a result
  of version \<^verbatim>\<open>0.4.0\<close>. And a world where a directory sits at the cache file's path.
\<close>

definition cached_world :: world where
  "cached_world =
     sample_world\<lparr>fs := fs sample_world @
        [(''/var/lib/cni/results'', Directory mode_0700),
         (''/var/lib/cni/results/net1-c1-eth0'',
          File mode_0600 (sample_result ''/opt/cni/bin/bridge''))]\<rparr>"

definition blocked_world :: world where
  "blocked_world =
     sample_world\<lparr>fs := fs sample_world @
        [(''/var/lib/cni/results'', Directory mode_0700),
         (''/var/lib/cni/results/net1-c1-eth0'', Directory mode_0700)]\<rparr>"


text \<open>
  The events recorded between two worlds, and among them the dispatches: the command
  and the document handed to a plugin, in the order of the dispatches.
\<close>

definition new_events :: "world \<Rightarrow> world \<Rightarrow> event list" where
  "new_events w w' = drop (length (events w)) (events w')"

definition handed :: "world \<Rightarrow> world \<Rightarrow> (string \<times> bytes) list" where
  "handed w w' = List.map_filter dispatch_of (new_events w w')"

text \<open>A plugin configuration whose own document carries a \<^verbatim>\<open>prevResult\<close> key.\<close>

definition stale_plugin :: NetworkConfig where
  "stale_plugin =
     \<lparr>Network = \<lparr>CNIVersion = ''0.3.1'', Name = ''own-name'', Type = ''bridge'',
                 Capabilities = []\<rparr>,
      Bytes = JObject [(''cniVersion'', JString ''0.3.1''), (''name'', JString ''own-name''),
                       (''type'', JString ''bridge''),
                       (''prevResult'', JObject [(''cniVersion'', JString ''0.3.1''),
                                                 (''madeBy'', JString ''an earlier run'')])]\<rparr>"

text \<open>
  A driver configured as gRPC client, and an environment whose server cannot be
  reached: every RPC fails. (In the sample environment the server answers CHECK and
  DEL with the error string \<^verbatim>\<open>plugin failed\<close> in its reply.)
\<close>

definition grpc_config :: CNIConfig where
  "grpc_config = \<lparr>Path = [''/opt/cni/bin''], ClientgRPC = True\<rparr>"

definition unreachable_env :: "json env" where
  "unreachable_env =
     sample_env\<lparr>CNIadd := (\<lambda>evs msg. Inl (Opaque ''connection refused'')),
                CNIcheck := (\<lambda>evs msg. Inl (Opaque ''connection refused'')),
                CNIdel := (\<lambda>evs msg. Inl (Opaque ''connection refused''))\<rparr>"

section \<open>Properties\<close>

subsection \<open>The derived configuration document\<close>



lemma ConfFromBytes_Bytes: "ConfFromBytes b = Inr conf \<Longrightarrow> Bytes conf = b"
  by (auto simp: ConfFromBytes_def split: json.splits sum.splits if_splits)

lemma InjectConf_fields:
  assumes "InjectConf env original newValues = Inr conf"
  shows "\<exists>config config'. Bytes original = JObject config
           \<and> set_keys env newValues config = Inr config' \<and> Bytes conf = JObject config'"
  using assms
  by (auto simp: InjectConf_def split: json.splits sum.splits dest: ConfFromBytes_Bytes)

lemma ConfFromBytes_parsed:
  assumes "ConfFromBytes b = Inr conf"
  shows "\<exists>m. b = JObject m \<and> Bytes conf = JObject m
           \<and> string_field m ''name'' = Inr (Name (Network conf))
           \<and> string_field m ''cniVersion'' = Inr (CNIVersion (Network conf))
           \<and> string_field m ''type'' = Inr (Type (Network conf))
           \<and> capabilities_field m = Inr (Capabilities (Network conf))
           \<and> Type (Network conf) \<noteq> ''''"
  using assms
  by (cases b) (auto simp: ConfFromBytes_def split: sum.splits if_splits)

lemma ConfFromBytes_same_fields:
  assumes "ConfFromBytes (JObject m) = Inr conf"
    and "map_of m' ''name'' = map_of m ''name''"
    and "map_of m' ''cniVersion'' = map_of m ''cniVersion''"
    and "map_of m' ''type'' = map_of m ''type''"
    and "map_of m' ''capabilities'' = map_of m ''capabilities''"
  shows "ConfFromBytes (JObject m') = Inr (conf\<lparr>Bytes := JObject m'\<rparr>)"
  using assms
  by (auto simp: ConfFromBytes_def string_field_def capabilities_field_def
           split: sum.splits if_splits)

lemma InjectConf_runtimeConfig:
  assumes "ConfFromBytes (Bytes orig) = Inr orig"
  shows "\<exists>m. Bytes orig = JObject m \<and>
           InjectConf env orig [(''runtimeConfig'', VMap rc)] =
             Inr (orig\<lparr>Bytes := JObject (AList.update ''runtimeConfig'' (JObject rc) m)\<rparr>)"
proof -
  from ConfFromBytes_parsed [OF assms] obtain m where m: "Bytes orig = JObject m"
    by auto
  have "ConfFromBytes (JObject (AList.update ''runtimeConfig'' (JObject rc) m)) =
          Inr (orig\<lparr>Bytes := JObject (AList.update ''runtimeConfig'' (JObject rc) m)\<rparr>)"
    using assms unfolding m
    by (rule ConfFromBytes_same_fields) (simp_all add: update_conv')
  then show ?thesis
    by (simp add: InjectConf_def m)
qed

lemma InjectConf_reparsed:
  assumes "InjectConf env original newValues = Inr conf"
  shows "ConfFromBytes (Bytes conf) = Inr conf"
proof -
  from assms obtain b where b: "ConfFromBytes b = Inr conf"
    by (auto simp: InjectConf_def split: json.splits sum.splits)
  with ConfFromBytes_Bytes [OF b] show ?thesis by simp
qed

lemma set_keys_inject:
  assumes "set_keys env
             ([(''name'', VString name), (''cniVersion'', VString ver)]
              @ (case prev of None \<Rightarrow> [] | Some r \<Rightarrow> [(''prevResult'', VResult r)]))
             config = Inr config'"
  shows "map_of config' ''name'' = Some (JString name)"
    and "map_of config' ''cniVersion'' = Some (JString ver)"
    and "case prev of
           None \<Rightarrow> map_of config' ''prevResult'' = map_of config ''prevResult''
         | Some r \<Rightarrow> \<exists>j. Marshal env r = Inr j \<and> map_of config' ''prevResult'' = Some j"
    and "k \<noteq> ''name'' \<Longrightarrow> k \<noteq> ''cniVersion'' \<Longrightarrow> k \<noteq> ''prevResult''
           \<Longrightarrow> map_of config' k = map_of config k"
  using assms
  by (cases prev; auto simp: update_conv' split: sum.splits)+

lemma injectRuntimeConfig_result:
  assumes parsed: "ConfFromBytes (Bytes orig) = Inr orig"
  shows "\<exists>m. Bytes orig = JObject m \<and>
           injectRuntimeConfig env orig rt =
             Inr (let rc = runtimeConfig_loop (Capabilities (Network orig)) rt []
                  in if rc = [] then orig
                     else orig\<lparr>Bytes := JObject (AList.update ''runtimeConfig'' (JObject rc) m)\<rparr>)"
proof -
  let ?rc = "runtimeConfig_loop (Capabilities (Network orig)) rt []"
  from InjectConf_runtimeConfig [OF parsed, of env ?rc]
  obtain m where m: "Bytes orig = JObject m"
    and inj: "InjectConf env orig [(''runtimeConfig'', VMap ?rc)] =
                Inr (orig\<lparr>Bytes := JObject (AList.update ''runtimeConfig'' (JObject ?rc) m)\<rparr>)"
    by blast
  show ?thesis
    using m inj by (auto simp: injectRuntimeConfig_def Let_def)
qed

lemma buildOneConfig_doc:
  assumes "buildOneConfig env name ver orig prev rt = Inr conf"
  shows "field (Bytes conf) ''name'' = Some (JString name)"
    and "field (Bytes conf) ''cniVersion'' = Some (JString ver)"
    and "case prev of
           None \<Rightarrow> field (Bytes conf) ''prevResult'' = field (Bytes orig) ''prevResult''
         | Some r \<Rightarrow> \<exists>j. Marshal env r = Inr j \<and> field (Bytes conf) ''prevResult'' = Some j"
    and "Name (Network conf) = name"
    and "CNIVersion (Network conf) = ver"
proof -
  let ?inject = "[(''name'', VString name), (''cniVersion'', VString ver)]
                 @ (case prev of None \<Rightarrow> [] | Some r \<Rightarrow> [(''prevResult'', VResult r)])"
  from assms obtain orig' where inj: "InjectConf env orig ?inject = Inr orig'"
    and rc: "injectRuntimeConfig env orig' rt = Inr conf"
    by (auto simp: buildOneConfig_def Let_def split: sum.splits)
  from inj obtain config config' where config: "Bytes orig = JObject config"
    and keys: "set_keys env ?inject config = Inr config'"
    and parse: "ConfFromBytes (JObject config') = Inr orig'"
    by (auto simp: InjectConf_def split: json.splits sum.splits)
  note k = set_keys_inject [OF keys]
  from ConfFromBytes_parsed [OF parse]
  have bytes': "Bytes orig' = JObject config'"
    and name': "string_field config' ''name'' = Inr (Name (Network orig'))"
    and ver': "string_field config' ''cniVersion'' = Inr (CNIVersion (Network orig'))"
    by auto
  from name' k(1) have n: "Name (Network orig') = name"
    by (simp add: string_field_def)
  from ver' k(2) have v: "CNIVersion (Network orig') = ver"
    by (simp add: string_field_def)
  from injectRuntimeConfig_result [OF InjectConf_reparsed [OF inj], of env rt] rc bytes'
  have conf: "conf = orig' \<or>
              (\<exists>rc. conf = orig'\<lparr>Bytes := JObject (AList.update ''runtimeConfig'' (JObject rc) config')\<rparr>)"
    by (auto simp: Let_def split: if_splits)
  from conf bytes' k(1) show "field (Bytes conf) ''name'' = Some (JString name)"
    by (auto simp: field_def update_conv')
  from conf bytes' k(2) show "field (Bytes conf) ''cniVersion'' = Some (JString ver)"
    by (auto simp: field_def update_conv')
  from conf bytes' k(3) config
  show "case prev of
           None \<Rightarrow> field (Bytes conf) ''prevResult'' = field (Bytes orig) ''prevResult''
         | Some r \<Rightarrow> \<exists>j. Marshal env r = Inr j \<and> field (Bytes conf) ''prevResult'' = Some j"
    by (cases prev) (auto simp: field_def update_conv')
  from conf n show "Name (Network conf) = name" by auto
  from conf v show "CNIVersion (Network conf) = ver" by auto
qed







subsection \<open>One dispatch\<close>

lemma prepare_newConf:
  assumes "prepare env c name ver net prev rt = Inr (pluginPath, newConf, capabilityArgs, cniArgs)"
  shows "buildOneConfig env name ver net prev rt = Inr newConf"
  using assms by (auto simp: prepare_def Let_def split: sum.splits option.splits)


lemma addNetwork_step:
  assumes "addNetwork env c name ver net prev rt w = (out, w')"
  shows "(w' = w \<and> (\<exists>err. out = Err err))
       \<or> (\<exists>ev newConf. w' = log_event ev w
             \<and> buildOneConfig env name ver net prev rt = Inr newConf
             \<and> dispatch_of ev = Some (''ADD'', Bytes newConf))"
proof (cases "prepare env c name ver net prev rt")
  case (Inl err)
  with assms show ?thesis by (auto simp: addNetwork_def)
next
  case (Inr prepared)
  obtain pluginPath newConf capabilityArgs cniArgs
    where prepared: "prepared = (pluginPath, newConf, capabilityArgs, cniArgs)"
    by (cases prepared)
  note conf = prepare_newConf [OF Inr [unfolded prepared]]
  show ?thesis
  proof (cases "ClientgRPC c")
    case False
    with assms Inr prepared conf show ?thesis
      by (auto simp: addNetwork_def Let_def args_def split: sum.splits)
  next
    case True
    with assms Inr prepared conf show ?thesis
      by (auto simp: addNetwork_def gRPCsendAdd_def gRPCmsg_def Let_def rpc_command_def
               split: sum.splits)
  qed
qed

lemma checkNetwork_step:
  assumes "checkNetwork env c name ver net prev rt w = (out, w')"
  shows "(w' = w \<and> (\<exists>err. out = Err err))
       \<or> (\<exists>ev newConf. w' = log_event ev w
             \<and> buildOneConfig env name ver net prev rt = Inr newConf
             \<and> dispatch_of ev = Some (''CHECK'', Bytes newConf))"
proof (cases "prepare env c name ver net prev rt")
  case (Inl err)
  with assms show ?thesis by (auto simp: checkNetwork_def)
next
  case (Inr prepared)
  obtain pluginPath newConf capabilityArgs cniArgs
    where prepared: "prepared = (pluginPath, newConf, capabilityArgs, cniArgs)"
    by (cases prepared)
  note conf = prepare_newConf [OF Inr [unfolded prepared]]
  show ?thesis
  proof (cases "ClientgRPC c")
    case False
    with assms Inr prepared conf show ?thesis
      by (auto simp: checkNetwork_def Let_def args_def split: option.splits)
  next
    case True
    with assms Inr prepared conf show ?thesis
      by (auto simp: checkNetwork_def gRPCsendCheck_def gRPCmsg_def Let_def rpc_command_def
               split: sum.splits)
  qed
qed

lemma delNetwork_step:
  assumes "delNetwork env c name ver net prev rt w = (out, w')"
  shows "(w' = w \<and> (\<exists>err. out = Err err))
       \<or> (\<exists>ev newConf. w' = log_event ev w
             \<and> buildOneConfig env name ver net prev rt = Inr newConf
             \<and> dispatch_of ev = Some (''DEL'', Bytes newConf))"
proof (cases "prepare env c name ver net prev rt")
  case (Inl err)
  with assms show ?thesis by (auto simp: delNetwork_def)
next
  case (Inr prepared)
  obtain pluginPath newConf capabilityArgs cniArgs
    where prepared: "prepared = (pluginPath, newConf, capabilityArgs, cniArgs)"
    by (cases prepared)
  note conf = prepare_newConf [OF Inr [unfolded prepared]]
  show ?thesis
  proof (cases "ClientgRPC c")
    case False
    with assms Inr prepared conf show ?thesis
      by (auto simp: delNetwork_def Let_def args_def split: option.splits)
  next
    case True
    with assms Inr prepared conf show ?thesis
      by (auto simp: delNetwork_def gRPCsendDel_def gRPCmsg_def Let_def rpc_command_def
               split: sum.splits)
  qed
qed

subsection \<open>The walks over the plugin list\<close>

lemma events_log_event [simp]: "events (log_event ev w) = events w @ [ev]"
  by (simp add: log_event_def)

lemma fs_log_event [simp]: "fs (log_event ev w) = fs w"
  by (simp add: log_event_def)

lemma AddNetworkList_loop_events:
  assumes "AddNetworkList_loop env c list ps prev rt w = (out, w')"
  shows "\<exists>evs. events w' = events w @ evs \<and> fs w' = fs w \<and> length evs \<le> length ps
           \<and> (\<forall>j<length evs. \<exists>pr newConf.
                  buildOneConfig env (list_Name list) (list_CNIVersion list) (ps ! j) pr rt
                    = Inr newConf
                  \<and> dispatch_of (evs ! j) = Some (''ADD'', Bytes newConf))
           \<and> (\<forall>res. out = Ok res \<longrightarrow> length evs = length ps)"
  using assms
proof (induction ps arbitrary: prev w)
  case Nil
  then show ?case by simp
next
  case (Cons net rest)
  obtain out1 w1 where step:
    "addNetwork env c (list_Name list) (list_CNIVersion list) net prev rt w = (out1, w1)"
    by (cases "addNetwork env c (list_Name list) (list_CNIVersion list) net prev rt w")
  from addNetwork_step [OF step]
  consider (failed) err where "w1 = w" "out1 = Err err"
    | (dispatched) ev newConf where "w1 = log_event ev w"
        "buildOneConfig env (list_Name list) (list_CNIVersion list) net prev rt = Inr newConf"
        "dispatch_of ev = Some (''ADD'', Bytes newConf)"
    by blast
  then show ?case
  proof cases
    case failed
    with Cons.prems step have "out = Err err" "w' = w" by simp_all
    then show ?thesis by simp
  next
    case dispatched
    show ?thesis
    proof (cases out1)
      case (Ok r)
      with Cons.prems step
      have "AddNetworkList_loop env c list rest (Some r) rt w1 = (out, w')" by simp
      from Cons.IH [OF this] obtain evs where evs:
        "events w' = events w1 @ evs" "fs w' = fs w1" "length evs \<le> length rest"
        "\<forall>j<length evs. \<exists>pr newConf.
            buildOneConfig env (list_Name list) (list_CNIVersion list) (rest ! j) pr rt
              = Inr newConf
            \<and> dispatch_of (evs ! j) = Some (''ADD'', Bytes newConf)"
        "\<forall>res. out = Ok res \<longrightarrow> length evs = length rest"
        by blast
      have nth: "\<exists>pr newConf.
            buildOneConfig env (list_Name list) (list_CNIVersion list) ((net # rest) ! j) pr rt
              = Inr newConf
            \<and> dispatch_of ((ev # evs) ! j) = Some (''ADD'', Bytes newConf)"
        if "j < length (ev # evs)" for j
        using that dispatched(2,3) evs(4) by (cases j) auto
      show ?thesis
        using evs(1,2,3,5) dispatched(1) nth
        by (intro exI [of _ "ev # evs"]) simp
    next
      case (Err err)
      with Cons.prems step have "out = Err err" "w' = w1" by simp_all
      with dispatched show ?thesis
        by (intro exI [of _ "[ev]"]) auto
    next
      case Exited
      with Cons.prems step have "out = Exited" "w' = w1" by simp_all
      with dispatched show ?thesis
        by (intro exI [of _ "[ev]"]) auto
    qed
  qed
qed

lemma CheckNetworkList_loop_events:
  assumes "CheckNetworkList_loop env c list ps cached rt w = (out, w')"
  shows "\<exists>evs. events w' = events w @ evs \<and> fs w' = fs w \<and> length evs \<le> length ps
           \<and> (\<forall>j<length evs. \<exists>newConf.
                  buildOneConfig env (list_Name list) (list_CNIVersion list) (ps ! j) cached rt
                    = Inr newConf
                  \<and> dispatch_of (evs ! j) = Some (''CHECK'', Bytes newConf))
           \<and> (out = Ok () \<longrightarrow> length evs = length ps)"
  using assms
proof (induction ps arbitrary: w)
  case Nil
  then show ?case by simp
next
  case (Cons net rest)
  obtain out1 w1 where step:
    "checkNetwork env c (list_Name list) (list_CNIVersion list) net cached rt w = (out1, w1)"
    by (cases "checkNetwork env c (list_Name list) (list_CNIVersion list) net cached rt w")
  from checkNetwork_step [OF step]
  consider (failed) err where "w1 = w" "out1 = Err err"
    | (dispatched) ev newConf where "w1 = log_event ev w"
        "buildOneConfig env (list_Name list) (list_CNIVersion list) net cached rt = Inr newConf"
        "dispatch_of ev = Some (''CHECK'', Bytes newConf)"
    by blast
  then show ?case
  proof cases
    case failed
    with Cons.prems step have "out = Err err" "w' = w" by simp_all
    then show ?thesis by simp
  next
    case dispatched
    show ?thesis
    proof (cases out1)
      case (Ok u)
      with Cons.prems step
      have "CheckNetworkList_loop env c list rest cached rt w1 = (out, w')" by simp
      from Cons.IH [OF this] obtain evs where evs:
        "events w' = events w1 @ evs" "fs w' = fs w1" "length evs \<le> length rest"
        "\<forall>j<length evs. \<exists>newConf.
            buildOneConfig env (list_Name list) (list_CNIVersion list) (rest ! j) cached rt
              = Inr newConf
            \<and> dispatch_of (evs ! j) = Some (''CHECK'', Bytes newConf)"
        "out = Ok () \<longrightarrow> length evs = length rest"
        by blast
      have nth: "\<exists>newConf.
            buildOneConfig env (list_Name list) (list_CNIVersion list) ((net # rest) ! j) cached rt
              = Inr newConf
            \<and> dispatch_of ((ev # evs) ! j) = Some (''CHECK'', Bytes newConf)"
        if "j < length (ev # evs)" for j
        using that dispatched(2,3) evs(4) by (cases j) auto
      show ?thesis
        using evs(1,2,3,5) dispatched(1) nth
        by (intro exI [of _ "ev # evs"]) simp
    next
      case (Err err)
      with Cons.prems step have "out = Err err" "w' = w1" by simp_all
      with dispatched show ?thesis
        by (intro exI [of _ "[ev]"]) auto
    next
      case Exited
      with Cons.prems step have "out = Exited" "w' = w1" by simp_all
      with dispatched show ?thesis
        by (intro exI [of _ "[ev]"]) auto
    qed
  qed
qed

lemma DelNetworkList_loop_events:
  assumes "DelNetworkList_loop env c list n cached rt w = (out, w')"
  shows "\<exists>evs. events w' = events w @ evs \<and> fs w' = fs w \<and> length evs \<le> n
           \<and> (\<forall>j<length evs. \<exists>newConf.
                  buildOneConfig env (list_Name list) (list_CNIVersion list)
                    (Plugins list ! (n - 1 - j)) cached rt = Inr newConf
                  \<and> dispatch_of (evs ! j) = Some (''DEL'', Bytes newConf))
           \<and> (out = Ok () \<longrightarrow> length evs = n)"
  using assms
proof (induction n arbitrary: w)
  case 0
  then show ?case by simp
next
  case (Suc i)
  let ?net = "Plugins list ! i"
  obtain out1 w1 where step:
    "delNetwork env c (list_Name list) (list_CNIVersion list) ?net cached rt w = (out1, w1)"
    by (cases "delNetwork env c (list_Name list) (list_CNIVersion list) ?net cached rt w")
  from delNetwork_step [OF step]
  consider (failed) err where "w1 = w" "out1 = Err err"
    | (dispatched) ev newConf where "w1 = log_event ev w"
        "buildOneConfig env (list_Name list) (list_CNIVersion list) ?net cached rt = Inr newConf"
        "dispatch_of ev = Some (''DEL'', Bytes newConf)"
    by blast
  then show ?case
  proof cases
    case failed
    with Suc.prems step have "out = Err err" "w' = w" by (simp_all add: Let_def)
    then show ?thesis by simp
  next
    case dispatched
    show ?thesis
    proof (cases out1)
      case (Ok u)
      with Suc.prems step
      have "DelNetworkList_loop env c list i cached rt w1 = (out, w')" by (simp add: Let_def)
      from Suc.IH [OF this] obtain evs where evs:
        "events w' = events w1 @ evs" "fs w' = fs w1" "length evs \<le> i"
        "\<forall>j<length evs. \<exists>newConf.
            buildOneConfig env (list_Name list) (list_CNIVersion list)
              (Plugins list ! (i - 1 - j)) cached rt = Inr newConf
            \<and> dispatch_of (evs ! j) = Some (''DEL'', Bytes newConf)"
        "out = Ok () \<longrightarrow> length evs = i"
        by blast
      have nth: "\<exists>newConf.
            buildOneConfig env (list_Name list) (list_CNIVersion list)
              (Plugins list ! (Suc i - 1 - j)) cached rt = Inr newConf
            \<and> dispatch_of ((ev # evs) ! j) = Some (''DEL'', Bytes newConf)"
        if "j < length (ev # evs)" for j
      proof (cases j)
        case 0
        with dispatched(2,3) show ?thesis by simp
      next
        case (Suc j')
        with that have "j' < length evs" by simp
        with evs(3) have "i - 1 - j' = i - Suc j'" "j' < i" by simp_all
        with evs(4) \<open>j' < length evs\<close> Suc show ?thesis by auto
      qed
      show ?thesis
        using evs(1,2,3,5) dispatched(1) nth
        by (intro exI [of _ "ev # evs"]) simp
    next
      case (Err err)
      with Suc.prems step have "out = Err err" "w' = w1" by (simp_all add: Let_def)
      with dispatched show ?thesis
        by (intro exI [of _ "[ev]"]) auto
    next
      case Exited
      with Suc.prems step have "out = Exited" "w' = w1" by (simp_all add: Let_def)
      with dispatched show ?thesis
        by (intro exI [of _ "[ev]"]) auto
    qed
  qed
qed

subsection \<open>Effects of the cache operations\<close>

lemma getCachedResult_world:
  assumes "getCachedResult env netName cniVersion rt w = (res, w')"
  shows "w' = log_event (ReadFile_ev (getResultCacheFilePath netName rt)) w"
  using assms
  by (auto simp: getCachedResult_def os_ReadFile_def Let_def split: sum.splits prod.splits if_splits)

lemma setCachedResult_events:
  assumes "setCachedResult env result netName rt w = (err, w')"
  shows "\<exists>evs. events w' = events w @ evs \<and> (\<forall>ev\<in>set evs. dispatch_of ev = None)"
  using assms
  by (auto simp: setCachedResult_def os_MkdirAll_def os_WriteFile_def Let_def
           split: sum.splits prod.splits option.splits)

lemma delCachedResult_world:
  assumes "delCachedResult netName rt w = (err, w')"
  shows "events w' = events w @ [Remove_ev (getResultCacheFilePath netName rt)]"
    and "fs w' = snd (Remove (getResultCacheFilePath netName rt) (fs w))"
  using assms
  by (auto simp: delCachedResult_def os_Remove_def Let_def split: prod.splits)

subsection \<open>Every dispatch of a list operation carries a derived configuration\<close>

lemma indexed_dispatches:
  assumes "\<forall>j<length evs. \<exists>pr newConf.
              buildOneConfig env name ver (ps ! f j) pr rt = Inr newConf
              \<and> dispatch_of (evs ! j) = Some (cmd, Bytes newConf)"
    and "\<forall>j<length evs. f j < length ps"
  shows "\<forall>ev\<in>set evs. \<exists>net\<in>set ps. \<exists>prev newConf.
              buildOneConfig env name ver net prev rt = Inr newConf
              \<and> dispatch_of ev = Some (cmd, Bytes newConf)"
proof
  fix ev assume "ev \<in> set evs"
  then obtain j where j: "j < length evs" "evs ! j = ev"
    by (auto simp: in_set_conv_nth)
  with assms(2) have "ps ! f j \<in> set ps" by simp
  with assms(1) j show "\<exists>net\<in>set ps. \<exists>prev newConf.
              buildOneConfig env name ver net prev rt = Inr newConf
              \<and> dispatch_of ev = Some (cmd, Bytes newConf)"
    by blast
qed

lemma AddNetworkList_events:
  assumes "AddNetworkList env c list rt w = (out, w')"
  shows "\<exists>evs. events w' = events w @ evs
           \<and> (\<forall>ev\<in>set evs. dispatch_of ev = None
                 \<or> (\<exists>net\<in>set (Plugins list). \<exists>prev newConf.
                       buildOneConfig env (list_Name list) (list_CNIVersion list) net prev rt
                         = Inr newConf
                       \<and> dispatch_of ev = Some (''ADD'', Bytes newConf)))"
proof -
  obtain out1 w1 where loop:
    "AddNetworkList_loop env c list (Plugins list) None rt w = (out1, w1)"
    by (cases "AddNetworkList_loop env c list (Plugins list) None rt w")
  from AddNetworkList_loop_events [OF loop] obtain evs1 where evs1:
    "events w1 = events w @ evs1"
    "\<forall>j<length evs1. \<exists>pr newConf.
        buildOneConfig env (list_Name list) (list_CNIVersion list) (Plugins list ! j) pr rt
          = Inr newConf
        \<and> dispatch_of (evs1 ! j) = Some (''ADD'', Bytes newConf)"
    "length evs1 \<le> length (Plugins list)"
    by blast
  have d1: "\<forall>ev\<in>set evs1. \<exists>net\<in>set (Plugins list). \<exists>prev newConf.
        buildOneConfig env (list_Name list) (list_CNIVersion list) net prev rt = Inr newConf
        \<and> dispatch_of ev = Some (''ADD'', Bytes newConf)"
    by (rule indexed_dispatches [where f = "\<lambda>j. j", OF evs1(2)]) (use evs1(3) in simp)
  obtain err w2 where put: "setCachedResult env
      (case out1 of Ok res \<Rightarrow> res | _ \<Rightarrow> None) (list_Name list) rt w1 = (err, w2)"
    by (cases "setCachedResult env (case out1 of Ok res \<Rightarrow> res | _ \<Rightarrow> None)
                 (list_Name list) rt w1")
  from setCachedResult_events [OF put] obtain evs2 where evs2:
    "events w2 = events w1 @ evs2" "\<forall>ev\<in>set evs2. dispatch_of ev = None"
    by blast
  have "w' = w1 \<or> w' = w2"
    using assms loop put
    by (auto simp: AddNetworkList_def split: outcome.splits option.splits)
  then show ?thesis
  proof
    assume "w' = w1"
    with evs1(1) d1 show ?thesis by blast
  next
    assume "w' = w2"
    with evs1(1) evs2 d1 show ?thesis
      by (intro exI [of _ "evs1 @ evs2"]) auto
  qed
qed

lemma CheckNetworkList_events:
  assumes "CheckNetworkList env c list rt w = (out, w')"
  shows "\<exists>evs. events w' = events w @ evs
           \<and> (\<forall>ev\<in>set evs. dispatch_of ev = None
                 \<or> (\<exists>net\<in>set (Plugins list). \<exists>prev newConf.
                       buildOneConfig env (list_Name list) (list_CNIVersion list) net prev rt
                         = Inr newConf
                       \<and> dispatch_of ev = Some (''CHECK'', Bytes newConf)))"
proof -
  obtain res w1 where get:
    "getCachedResult env (list_Name list) (list_CNIVersion list) rt w = (res, w1)"
    by (cases "getCachedResult env (list_Name list) (list_CNIVersion list) rt w")
  note w1 = getCachedResult_world [OF get]
  obtain out2 w2 where loop:
    "CheckNetworkList_loop env c list (Plugins list) (fst res) rt w1 = (out2, w2)"
    by (cases "CheckNetworkList_loop env c list (Plugins list) (fst res) rt w1")
  from CheckNetworkList_loop_events [OF loop] obtain evs2 where evs2:
    "events w2 = events w1 @ evs2"
    "\<forall>j<length evs2. \<exists>newConf.
        buildOneConfig env (list_Name list) (list_CNIVersion list) (Plugins list ! j) (fst res) rt
          = Inr newConf
        \<and> dispatch_of (evs2 ! j) = Some (''CHECK'', Bytes newConf)"
    "length evs2 \<le> length (Plugins list)"
    by blast
  from evs2(2) have "\<forall>j<length evs2. \<exists>pr newConf.
        buildOneConfig env (list_Name list) (list_CNIVersion list) (Plugins list ! j) pr rt
          = Inr newConf
        \<and> dispatch_of (evs2 ! j) = Some (''CHECK'', Bytes newConf)"
    by blast
  then have d2: "\<forall>ev\<in>set evs2. \<exists>net\<in>set (Plugins list). \<exists>prev newConf.
        buildOneConfig env (list_Name list) (list_CNIVersion list) net prev rt = Inr newConf
        \<and> dispatch_of ev = Some (''CHECK'', Bytes newConf)"
    by (rule indexed_dispatches [where f = "\<lambda>j. j"]) (use evs2(3) in simp)
  have "w' = w \<or> w' = w1 \<or> w' = w2"
    using assms get loop
    by (cases res) (auto simp: CheckNetworkList_def split: sum.splits if_splits option.splits)
  then consider "w' = w" | "w' = w1" | "w' = w2" by blast
  then show ?thesis
  proof cases
    case 1
    then show ?thesis by simp
  next
    case 2
    with w1 show ?thesis
      by (intro exI [of _ "[ReadFile_ev (getResultCacheFilePath (list_Name list) rt)]"]) simp
  next
    case 3
    with w1 evs2(1) d2 show ?thesis
      by (intro exI [of _ "ReadFile_ev (getResultCacheFilePath (list_Name list) rt) # evs2"])
         auto
  qed
qed

lemma DelNetworkList_events:
  assumes "DelNetworkList env c list rt w = (out, w')"
  shows "\<exists>evs. events w' = events w @ evs
           \<and> (\<forall>ev\<in>set evs. dispatch_of ev = None
                 \<or> (\<exists>net\<in>set (Plugins list). \<exists>prev newConf.
                       buildOneConfig env (list_Name list) (list_CNIVersion list) net prev rt
                         = Inr newConf
                       \<and> dispatch_of ev = Some (''DEL'', Bytes newConf)))"
proof -
  let ?P = "\<lambda>ev. dispatch_of ev = None
                 \<or> (\<exists>net\<in>set (Plugins list). \<exists>prev newConf.
                       buildOneConfig env (list_Name list) (list_CNIVersion list) net prev rt
                         = Inr newConf
                       \<and> dispatch_of ev = Some (''DEL'', Bytes newConf))"
  have loop_ext: "\<exists>evs. events w2 = events w1 @ evs \<and> (\<forall>ev\<in>set evs. ?P ev)"
    if "DelNetworkList_loop env c list (length (Plugins list)) cached rt w1 = (out2, w2)"
    for cached w1 out2 w2
  proof -
    from DelNetworkList_loop_events [OF that] obtain evs where evs:
      "events w2 = events w1 @ evs"
      "\<forall>j<length evs. \<exists>newConf.
          buildOneConfig env (list_Name list) (list_CNIVersion list)
            (Plugins list ! (length (Plugins list) - 1 - j)) cached rt = Inr newConf
          \<and> dispatch_of (evs ! j) = Some (''DEL'', Bytes newConf)"
      "length evs \<le> length (Plugins list)"
      by blast
    from evs(2) have "\<forall>j<length evs. \<exists>pr newConf.
          buildOneConfig env (list_Name list) (list_CNIVersion list)
            (Plugins list ! (length (Plugins list) - 1 - j)) pr rt = Inr newConf
          \<and> dispatch_of (evs ! j) = Some (''DEL'', Bytes newConf)"
      by blast
    then have "\<forall>ev\<in>set evs. \<exists>net\<in>set (Plugins list). \<exists>prev newConf.
          buildOneConfig env (list_Name list) (list_CNIVersion list) net prev rt = Inr newConf
          \<and> dispatch_of ev = Some (''DEL'', Bytes newConf)"
      by (rule indexed_dispatches [where f = "\<lambda>j. length (Plugins list) - 1 - j"])
         (use evs(3) in auto)
    with evs(1) show ?thesis by blast
  qed
  have del_ext: "\<exists>evs. events w3 = events w2 @ evs \<and> (\<forall>ev\<in>set evs. ?P ev)"
    if "delCachedResult (list_Name list) rt w2 = (e, w3)" for w2 e w3
    using delCachedResult_world(1) [OF that] by simp
  have get_ext: "\<exists>evs. events w1 = events w @ evs \<and> (\<forall>ev\<in>set evs. ?P ev)"
    if "getCachedResult env (list_Name list) (list_CNIVersion list) rt w = (res, w1)" for res w1
    using getCachedResult_world [OF that] by simp
  have trans: "\<exists>evs. events w2 = events w0 @ evs \<and> (\<forall>ev\<in>set evs. ?P ev)"
    if "\<exists>evs. events w1 = events w0 @ evs \<and> (\<forall>ev\<in>set evs. ?P ev)"
       "\<exists>evs. events w2 = events w1 @ evs \<and> (\<forall>ev\<in>set evs. ?P ev)"
    for w0 w1 w2 :: world
  proof -
    from that obtain e1 e2 where "events w1 = events w0 @ e1" "\<forall>ev\<in>set e1. ?P ev"
      "events w2 = events w1 @ e2" "\<forall>ev\<in>set e2. ?P ev" by blast
    then show ?thesis by (intro exI [of _ "e1 @ e2"]) auto
  qed
  have refl: "\<exists>evs. events w = events w @ evs \<and> (\<forall>ev\<in>set evs. ?P ev)"
    by simp
  obtain res w1 where first:
    "(if (case GreaterThanOrEqualTo env (list_CNIVersion list) ''0.4.0'' of
            Inr gtet \<Rightarrow> gtet | Inl _ \<Rightarrow> False)
      then getCachedResult env (list_Name list) (list_CNIVersion list) rt w
      else ((None, None), w)) = (res, w1)"
    by (cases "(if (case GreaterThanOrEqualTo env (list_CNIVersion list) ''0.4.0'' of
            Inr gtet \<Rightarrow> gtet | Inl _ \<Rightarrow> False)
      then getCachedResult env (list_Name list) (list_CNIVersion list) rt w
      else ((None, None), w))")
  have e1: "\<exists>evs. events w1 = events w @ evs \<and> (\<forall>ev\<in>set evs. ?P ev)"
    using first get_ext refl by (auto split: if_splits)
  obtain out2 w2 where loop:
    "DelNetworkList_loop env c list (length (Plugins list)) (fst res) rt w1 = (out2, w2)"
    by (cases "DelNetworkList_loop env c list (length (Plugins list)) (fst res) rt w1")
  have e2: "\<exists>evs. events w2 = events w @ evs \<and> (\<forall>ev\<in>set evs. ?P ev)"
    by (rule trans [OF e1 loop_ext [OF loop]])
  obtain e w3 where del: "delCachedResult (list_Name list) rt w2 = (e, w3)"
    by (cases "delCachedResult (list_Name list) rt w2")
  have e3: "\<exists>evs. events w3 = events w @ evs \<and> (\<forall>ev\<in>set evs. ?P ev)"
    by (rule trans [OF e2 del_ext [OF del]])
  have "w' = w \<or> w' = w1 \<or> w' = w2 \<or> w' = w3"
    using assms first loop del
    by (cases res) (auto simp: DelNetworkList_def split: sum.splits if_splits option.splits outcome.splits prod.splits)
  with refl e1 e2 e3 show ?thesis by blast
qed

text \<open>
  C7. Name and version override. The derived configuration that \<^verbatim>\<open>buildOneConfig\<close>
  returns carries the name and version it was called with, in the document and in the
  structured view, whatever the plugin's own document declared; and every document that
  \<^verbatim>\<open>AddNetworkList\<close>, \<^verbatim>\<open>CheckNetworkList\<close> or \<^verbatim>\<open>DelNetworkList\<close> hands to a
  plugin, over either transport, has the list's name under \<^verbatim>\<open>name\<close> and the list's
  version under \<^verbatim>\<open>cniVersion\<close>.
\<close>

theorem name_version_override:
  "(buildOneConfig env name cniVersion orig prevResult rt = Inr conf \<longrightarrow>
      field (Bytes conf) ''name'' = Some (JString name)
    \<and> field (Bytes conf) ''cniVersion'' = Some (JString cniVersion)
    \<and> Name (Network conf) = name
    \<and> CNIVersion (Network conf) = cniVersion)
 \<and> (w' \<in> {snd (AddNetworkList env c list rt w), snd (CheckNetworkList env c list rt w),
           snd (DelNetworkList env c list rt w)} \<longrightarrow>
      (\<exists>evs. events w' = events w @ evs
         \<and> (\<forall>ev\<in>set evs. \<forall>cmd doc. dispatch_of ev = Some (cmd, doc) \<longrightarrow>
                field doc ''name'' = Some (JString (list_Name list))
              \<and> field doc ''cniVersion'' = Some (JString (list_CNIVersion list)))))"
proof (rule conjI; rule impI)
  assume b: "buildOneConfig env name cniVersion orig prevResult rt = Inr conf"
  from buildOneConfig_doc(1,2,4,5) [OF b]
  show "field (Bytes conf) ''name'' = Some (JString name)
    \<and> field (Bytes conf) ''cniVersion'' = Some (JString cniVersion)
    \<and> Name (Network conf) = name
    \<and> CNIVersion (Network conf) = cniVersion"
    by simp
next
  let ?stamped = "\<lambda>ev. \<forall>cmd doc. dispatch_of ev = Some (cmd, doc) \<longrightarrow>
                field doc ''name'' = Some (JString (list_Name list))
              \<and> field doc ''cniVersion'' = Some (JString (list_CNIVersion list))"
  have stamped: "?stamped ev"
    if "dispatch_of ev = None
         \<or> (\<exists>net prev newConf.
               buildOneConfig env (list_Name list) (list_CNIVersion list) net prev rt = Inr newConf
               \<and> dispatch_of ev = Some (command, Bytes newConf))" for ev command
    using that buildOneConfig_doc(1,2) by fastforce
  assume "w' \<in> {snd (AddNetworkList env c list rt w), snd (CheckNetworkList env c list rt w),
           snd (DelNetworkList env c list rt w)}"
  then consider (add) out where "AddNetworkList env c list rt w = (out, w')"
    | (check) out where "CheckNetworkList env c list rt w = (out, w')"
    | (del) out where "DelNetworkList env c list rt w = (out, w')"
    by (auto simp: prod_eq_iff)
  then show "\<exists>evs. events w' = events w @ evs \<and> (\<forall>ev\<in>set evs. ?stamped ev)"
  proof cases
    case add
    from AddNetworkList_events [OF add] obtain evs where
      "events w' = events w @ evs"
      "\<forall>ev\<in>set evs. dispatch_of ev = None
         \<or> (\<exists>net prev newConf.
               buildOneConfig env (list_Name list) (list_CNIVersion list) net prev rt = Inr newConf
               \<and> dispatch_of ev = Some (''ADD'', Bytes newConf))"
      by blast
    with stamped [of _ "''ADD''"] show ?thesis by blast
  next
    case check
    from CheckNetworkList_events [OF check] obtain evs where
      "events w' = events w @ evs"
      "\<forall>ev\<in>set evs. dispatch_of ev = None
         \<or> (\<exists>net prev newConf.
               buildOneConfig env (list_Name list) (list_CNIVersion list) net prev rt = Inr newConf
               \<and> dispatch_of ev = Some (''CHECK'', Bytes newConf))"
      by blast
    with stamped [of _ "''CHECK''"] show ?thesis by blast
  next
    case del
    from DelNetworkList_events [OF del] obtain evs where
      "events w' = events w @ evs"
      "\<forall>ev\<in>set evs. dispatch_of ev = None
         \<or> (\<exists>net prev newConf.
               buildOneConfig env (list_Name list) (list_CNIVersion list) net prev rt = Inr newConf
               \<and> dispatch_of ev = Some (''DEL'', Bytes newConf))"
      by blast
    with stamped [of _ "''DEL''"] show ?thesis by blast
  qed
qed

text \<open>
  A chain of two plugins whose own documents declare the name \<^verbatim>\<open>own-name\<close> and the
  version \<^verbatim>\<open>0.3.1\<close>, in the list \<^verbatim>\<open>net1\<close> of version \<^verbatim>\<open>0.4.0\<close>: both plugins
  are dispatched, and both see \<^verbatim>\<open>net1\<close> and \<^verbatim>\<open>0.4.0\<close>.
\<close>

theorem name_version_override_witness:
  "field (Bytes (sample_plugin ''bridge'' [])) ''name'' = Some (JString ''own-name'')
 \<and> (\<exists>conf. buildOneConfig sample_env ''net1'' ''0.4.0'' (sample_plugin ''bridge'' []) None
              sample_rt = Inr conf
        \<and> field (Bytes conf) ''name'' = Some (JString ''net1'')
        \<and> field (Bytes conf) ''cniVersion'' = Some (JString ''0.4.0''))
 \<and> map (map_option fst \<circ> dispatch_of)
      (events (snd (AddNetworkList sample_env sample_config
         (sample_list ''0.4.0'' [sample_plugin ''bridge'' [], sample_plugin ''portmap'' []])
         sample_rt sample_world)))
      = [Some ''ADD'', Some ''ADD'', None, None]
 \<and> list_all
      (\<lambda>ev. case dispatch_of ev of
               None \<Rightarrow> True
             | Some (cmd, doc) \<Rightarrow> field doc ''name'' = Some (JString ''net1'')
                                 \<and> field doc ''cniVersion'' = Some (JString ''0.4.0''))
      (events (snd (AddNetworkList sample_env sample_config
         (sample_list ''0.4.0'' [sample_plugin ''bridge'' [], sample_plugin ''portmap'' []])
         sample_rt sample_world)))"
proof -
  let ?list = "sample_list ''0.4.0'' [sample_plugin ''bridge'' [], sample_plugin ''portmap'' []]"
  let ?w' = "snd (AddNetworkList sample_env sample_config ?list sample_rt sample_world)"
  have own: "field (Bytes (sample_plugin ''bridge'' [])) ''name'' = Some (JString ''own-name'')"
    by code_simp
  have built: "buildOneConfig sample_env ''net1'' ''0.4.0'' (sample_plugin ''bridge'' []) None
                 sample_rt
               = Inr \<lparr>Network = \<lparr>CNIVersion = ''0.4.0'', Name = ''net1'', Type = ''bridge'',
                                 Capabilities = []\<rparr>,
                      Bytes = JObject [(''cniVersion'', JString ''0.4.0''),
                                       (''name'', JString ''net1''),
                                       (''type'', JString ''bridge''),
                                       (''capabilities'', JObject [])]\<rparr>"
    by code_simp
  have run: "map (map_option fst \<circ> dispatch_of) (events ?w')
               = [Some ''ADD'', Some ''ADD'', None, None]"
    by code_simp
  let ?conf = "\<lparr>Network = \<lparr>CNIVersion = ''0.4.0'', Name = ''net1'', Type = ''bridge'',
                                 Capabilities = []\<rparr>,
                      Bytes = JObject [(''cniVersion'', JString ''0.4.0''),
                                       (''name'', JString ''net1''),
                                       (''type'', JString ''bridge''),
                                       (''capabilities'', JObject [])]\<rparr>"
  note inst = name_version_override
         [of sample_env "''net1''" "''0.4.0''" "sample_plugin ''bridge'' []" None sample_rt
             ?conf ?w' sample_config ?list sample_world]
  from inst built
  have fields: "field (Bytes ?conf) ''name'' = Some (JString ''net1'')
        \<and> field (Bytes ?conf) ''cniVersion'' = Some (JString ''0.4.0'')"
    by blast
  from inst have "\<exists>evs. events ?w' = events sample_world @ evs
         \<and> (\<forall>ev\<in>set evs. \<forall>cmd doc. dispatch_of ev = Some (cmd, doc) \<longrightarrow>
                field doc ''name'' = Some (JString (list_Name ?list))
              \<and> field doc ''cniVersion'' = Some (JString (list_CNIVersion ?list)))"
    by blast
  then have stamped: "\<forall>ev\<in>set (events ?w').
       \<forall>cmd doc. dispatch_of ev = Some (cmd, doc) \<longrightarrow>
          field doc ''name'' = Some (JString ''net1'')
        \<and> field doc ''cniVersion'' = Some (JString ''0.4.0'')"
    by (auto simp: sample_world_def sample_list_def)
  from stamped have all: "list_all
      (\<lambda>ev. case dispatch_of ev of
               None \<Rightarrow> True
             | Some (cmd, doc) \<Rightarrow> field doc ''name'' = Some (JString ''net1'')
                                 \<and> field doc ''cniVersion'' = Some (JString ''0.4.0''))
      (events ?w')"
    by (auto simp: list_all_iff split: option.splits)
  from own built fields run all show ?thesis
    by auto
qed

subsection \<open>The CHECK gate\<close>

text \<open>
  C5. \<^verbatim>\<open>CheckNetworkList\<close> asks the version registry whether the list's version is at
  least \<^verbatim>\<open>0.4.0\<close>. When the answer is no, it fails with the "does not support the
  CHECK command" error; when the answer is yes and \<^verbatim>\<open>DisableCheck\<close> is set, it
  succeeds. In both cases the world is returned as it was: no event is recorded, so the
  cache was not read and no plugin was dispatched.
\<close>

theorem CheckNetworkList_gate:
  assumes "GreaterThanOrEqualTo env (list_CNIVersion list) ''0.4.0'' = Inr gtet"
  shows "(\<not> gtet \<longrightarrow>
            CheckNetworkList env c list rt w
              = (Err (CheckUnsupported (list_CNIVersion list)), w))
       \<and> (gtet \<and> DisableCheck list \<longrightarrow> CheckNetworkList env c list rt w = (Ok (), w))"
  using assms by (simp add: CheckNetworkList_def)

theorem CheckNetworkList_gate_witness:
  "GreaterThanOrEqualTo sample_env ''0.3.1'' ''0.4.0'' = Inr False
 \<and> CheckNetworkList sample_env sample_config
      (sample_list ''0.3.1'' [sample_plugin ''bridge'' []]) sample_rt cached_world
    = (Err (CheckUnsupported ''0.3.1''), cached_world)
 \<and> GreaterThanOrEqualTo sample_env ''0.4.0'' ''0.4.0'' = Inr True
 \<and> CheckNetworkList sample_env sample_config
      ((sample_list ''0.4.0'' [sample_plugin ''bridge'' []])\<lparr>DisableCheck := True\<rparr>)
      sample_rt cached_world
    = (Ok (), cached_world)"
proof -
  have old: "GreaterThanOrEqualTo sample_env ''0.3.1'' ''0.4.0'' = Inr False"
    by code_simp
  have new: "GreaterThanOrEqualTo sample_env ''0.4.0'' ''0.4.0'' = Inr True"
    by code_simp
  from CheckNetworkList_gate
         [of sample_env "sample_list ''0.3.1'' [sample_plugin ''bridge'' []]" False
             sample_config sample_rt cached_world]
       CheckNetworkList_gate
         [of sample_env
             "(sample_list ''0.4.0'' [sample_plugin ''bridge'' []])\<lparr>DisableCheck := True\<rparr>"
             True sample_config sample_rt cached_world]
       old new
  show ?thesis
    by (simp add: sample_list_def)
qed

subsection \<open>Reading the cache\<close>

text \<open>
  C4, as amended. \<^verbatim>\<open>getCachedResult\<close> returns null with no error when the cache file
  does not exist, and equally for every other failure of the read: whatever error
  \<^verbatim>\<open>ioutil.ReadFile\<close> returns is dropped. The only effect is the read itself.
\<close>

theorem getCachedResult_read_failure:
  "(map_of (fs w) (getResultCacheFilePath netName rt) = None \<longrightarrow>
      ReadFile (getResultCacheFilePath netName rt) (fs w) = Inl ENOENT)
 \<and> (ReadFile (getResultCacheFilePath netName rt) (fs w) = Inl e \<longrightarrow>
      getCachedResult env netName cniVersion rt w
        = ((None, None), log_event (ReadFile_ev (getResultCacheFilePath netName rt)) w))"
  by (simp add: getCachedResult_def os_ReadFile_def ReadFile_def)

theorem getCachedResult_read_failure_witness:
  "map_of (fs sample_world) (getResultCacheFilePath ''net1'' sample_rt) = None
 \<and> ReadFile (getResultCacheFilePath ''net1'' sample_rt) (fs sample_world) = Inl ENOENT
 \<and> getCachedResult sample_env ''net1'' ''0.4.0'' sample_rt sample_world
      = ((None, None), log_event (ReadFile_ev ''/var/lib/cni/results/net1-c1-eth0'') sample_world)"
proof -
  have path: "getResultCacheFilePath ''net1'' sample_rt = ''/var/lib/cni/results/net1-c1-eth0''"
    by code_simp
  have absent: "map_of (fs sample_world) ''/var/lib/cni/results/net1-c1-eth0'' = None"
    by (simp add: sample_world_def)
  from getCachedResult_read_failure
         [of sample_world "''net1''" sample_rt ENOENT sample_env "''0.4.0''"]
       path absent
  show ?thesis by simp
qed

text \<open>
  The claim as stated fails where the read fails for another reason than absence:
  with a directory at the cache file's path the read fails with \<^verbatim>\<open>EISDIR\<close>, and the
  call still returns null and no error.
\<close>

theorem getCachedResult_other_read_failure:
  "ReadFile (getResultCacheFilePath ''net1'' sample_rt) (fs blocked_world) = Inl EISDIR
 \<and> fst (getCachedResult sample_env ''net1'' ''0.4.0'' sample_rt blocked_world) = (None, None)"
  by code_simp

subsection \<open>File-system calls\<close>

lemma Mkdir_last_cases:
  assumes "Mkdir_last path perm f = (r, f1)"
  shows "(f1 = f \<and> (r \<noteq> None \<or> map_of f path \<noteq> None))
       \<or> (r = None \<and> map_of f path = None \<and> f1 = AList.update path (Directory perm) f)"
  using assms
  by (auto simp: Mkdir_last_def Mkdir_def split: option.splits node.splits prod.splits)

lemma MkdirAll_changes:
  "MkdirAll p perm f = (r, f1) \<Longrightarrow>
     map_of f1 q = map_of f q
     \<or> (length q \<le> length p \<and> map_of f q = None \<and> map_of f1 q = Some (Directory perm))"
proof (induction p perm f arbitrary: r f1 rule: MkdirAll.induct)
  case (1 path perm f)
  show ?case
  proof (cases "map_of f path")
    case (Some n)
    with "1.prems" show ?thesis
      by (cases n) (auto simp: MkdirAll.simps [of path])
  next
    case None
    have last: "map_of f1 q = map_of f0 q
         \<or> (length q \<le> length path \<and> map_of f0 q = None
              \<and> map_of f1 q = Some (Directory perm))"
      if "Mkdir_last path perm f0 = (r, f1)" for f0
      using Mkdir_last_cases [OF that] by (cases "q = path") (auto simp: update_conv')
    show ?thesis
    proof (cases "1 < element_start path")
      case False
      with None "1.prems" have "Mkdir_last path perm f = (r, f1)"
        by (simp add: MkdirAll.simps [of path])
      from last [OF this] show ?thesis .
    next
      case True
      let ?parent = "take (element_start path - 1) path"
      obtain r0 f0 where parent: "MkdirAll ?parent perm f = (r0, f0)"
        by (cases "MkdirAll ?parent perm f")
      have shorter: "length ?parent \<le> length path" by simp
      from "1.IH" [OF None True parent]
      have ih: "map_of f0 q = map_of f q
          \<or> (length q \<le> length path \<and> map_of f q = None
               \<and> map_of f0 q = Some (Directory perm))"
        using shorter by auto
      show ?thesis
      proof (cases r0)
        case (Some e)
        with None True parent "1.prems" have "f1 = f0"
          by (simp add: MkdirAll.simps [of path])
        with ih show ?thesis by simp
      next
        case None': None
        with None True parent "1.prems" have "Mkdir_last path perm f0 = (r, f1)"
          by (simp add: MkdirAll.simps [of path])
        from last [OF this] ih show ?thesis by auto
      qed
    qed
  qed
qed

lemma MkdirAll_success:
  assumes "MkdirAll p perm f = (None, f1)"
  shows "\<exists>m. map_of f1 p = Some (Directory m) \<and> (map_of f p = None \<longrightarrow> m = perm)"
proof (cases "map_of f p")
  case (Some n)
  with assms show ?thesis
    by (cases n) (auto simp: MkdirAll.simps [of p])
next
  case None
  have last: "map_of f1 p = Some (Directory perm)"
    if "Mkdir_last p perm f0 = (None, f1)" "map_of f0 p = None" for f0
    using Mkdir_last_cases [OF that(1)] that(2) by (auto simp: update_conv')
  show ?thesis
  proof (cases "1 < element_start p")
    case False
    with None assms have "Mkdir_last p perm f = (None, f1)"
      by (simp add: MkdirAll.simps [of p])
    from last [OF this None] None show ?thesis by simp
  next
    case True
    let ?parent = "take (element_start p - 1) p"
    obtain r0 f0 where parent: "MkdirAll ?parent perm f = (r0, f0)"
      by (cases "MkdirAll ?parent perm f")
    from True element_start_le [of p] have "length ?parent < length p" by simp
    with MkdirAll_changes [OF parent, of p] None have still: "map_of f0 p = None"
      by auto
    from None True parent assms have "r0 = None" "Mkdir_last p perm f0 = (None, f1)"
      by (auto simp: MkdirAll.simps [of p] split: option.splits)
    from last [OF this(2) still] None show ?thesis by simp
  qed
qed

lemma WriteFile_success:
  assumes "WriteFile name data perm f = (None, f2)"
  shows "map_of f2 name =
           Some (File (case map_of f name of Some (File m old) \<Rightarrow> m | _ \<Rightarrow> perm) data)"
    and "map_of f name \<noteq> None \<or> (\<exists>m. map_of f (filepath_Dir name) = Some (Directory m))"
    and "q \<noteq> name \<Longrightarrow> map_of f2 q = map_of f q"
  using assms
  by (auto simp: WriteFile_def update_conv' split: option.splits node.splits)






lemma setCachedResult_unfold:
  assumes "setCachedResult env result netName rt w = (None, w')"
  shows "\<exists>data f1 f2. json_Marshal env result = Inr data
     \<and> MkdirAll (filepath_Dir (getResultCacheFilePath netName rt)) mode_0700 (fs w) = (None, f1)
     \<and> WriteFile (getResultCacheFilePath netName rt) data mode_0600 f1 = (None, f2)
     \<and> fs w' = f2
     \<and> events w' = events w @
           [MkdirAll_ev (filepath_Dir (getResultCacheFilePath netName rt)) mode_0700,
            WriteFile_ev (getResultCacheFilePath netName rt) data mode_0600]"
proof (cases "json_Marshal env result")
  case (Inl err)
  with assms show ?thesis by (simp add: setCachedResult_def)
next
  case (Inr data)
  let ?path = "getResultCacheFilePath netName rt"
  let ?dir = "filepath_Dir ?path"
  obtain r1 f1 where mk: "MkdirAll ?dir mode_0700 (fs w) = (r1, f1)"
    by (cases "MkdirAll ?dir mode_0700 (fs w)")
  obtain r2 f2 where wr: "WriteFile ?path data mode_0600 f1 = (r2, f2)"
    by (cases "WriteFile ?path data mode_0600 f1")
  from assms Inr mk have r1: "r1 = None"
    by (cases r1) (simp_all add: setCachedResult_def os_MkdirAll_def Let_def)
  from assms Inr mk wr r1 have r2: "r2 = None" and w': "fs w' = f2"
    "events w' = events w @ [MkdirAll_ev ?dir mode_0700, WriteFile_ev ?path data mode_0600]"
    by (auto simp: setCachedResult_def os_MkdirAll_def os_WriteFile_def Let_def log_event_def)
  from Inr mk wr r1 r2 w' show ?thesis by simp
qed

lemma setCachedResult_success:
  assumes "setCachedResult env result netName rt w = (None, w')"
  shows "\<exists>data. json_Marshal env result = Inr data
           \<and> events w' = events w @
                 [MkdirAll_ev (filepath_Dir (getResultCacheFilePath netName rt)) mode_0700,
                  WriteFile_ev (getResultCacheFilePath netName rt) data mode_0600]
           \<and> map_of (fs w') (getResultCacheFilePath netName rt) =
               Some (File (case map_of (fs w) (getResultCacheFilePath netName rt) of
                             Some (File m old) \<Rightarrow> m | _ \<Rightarrow> mode_0600) data)
           \<and> (\<exists>m. map_of (fs w') (filepath_Dir (getResultCacheFilePath netName rt))
                     = Some (Directory m)
                  \<and> (map_of (fs w) (filepath_Dir (getResultCacheFilePath netName rt)) = None
                       \<longrightarrow> m = mode_0700))"
proof -
  let ?path = "getResultCacheFilePath netName rt"
  let ?dir = "filepath_Dir ?path"
  from setCachedResult_unfold [OF assms]
  obtain data f1 f2 where data: "json_Marshal env result = Inr data"
    and mk: "MkdirAll ?dir mode_0700 (fs w) = (None, f1)"
    and wr: "WriteFile ?path data mode_0600 f1 = (None, f2)"
    and fs': "fs w' = f2"
    and ev': "events w' = events w @ [MkdirAll_ev ?dir mode_0700, WriteFile_ev ?path data mode_0600]"
    by (elim exE conjE) (rule that; assumption)
  from MkdirAll_success [OF mk] obtain m where dir1: "map_of f1 ?dir = Some (Directory m)"
    and fresh: "map_of (fs w) ?dir = None \<longrightarrow> m = mode_0700"
    by (elim exE conjE) (rule that; assumption)
  note written2 = WriteFile_success(1) [OF wr]
  have distinct: "?dir \<noteq> ?path"
  proof
    assume "?dir = ?path"
    with dir1 wr show False by (simp add: WriteFile_def)
  qed
  have dir2: "map_of f2 ?dir = Some (Directory m)"
    using WriteFile_success(3) [OF wr distinct] dir1 by simp
  have before: "map_of f1 ?path = map_of (fs w) ?path"
  proof -
    from MkdirAll_changes [OF mk, of ?path]
    consider "map_of f1 ?path = map_of (fs w) ?path"
      | "map_of f1 ?path = Some (Directory mode_0700)" by blast
    then show ?thesis
    proof cases
      case 1
      then show ?thesis .
    next
      case 2
      with wr show ?thesis by (simp add: WriteFile_def)
    qed
  qed
  from written2 before have written: "map_of f2 ?path =
      Some (File (case map_of (fs w) ?path of Some (File m old) \<Rightarrow> m | _ \<Rightarrow> mode_0600) data)"
    by simp
  have dir: "\<exists>m. map_of (fs w') ?dir = Some (Directory m)
                 \<and> (map_of (fs w) ?dir = None \<longrightarrow> m = mode_0700)"
    using dir2 fresh fs' by simp
  from written fs' have written': "map_of (fs w') ?path =
      Some (File (case map_of (fs w) ?path of Some (File m old) \<Rightarrow> m | _ \<Rightarrow> mode_0600) data)"
    by simp
  show ?thesis
    by (rule exI [of _ data]) (rule conjI data ev' written' dir)+
qed




subsection \<open>ADD on an empty plugin list\<close>

text \<open>
  C10. With an empty plugin sequence \<^verbatim>\<open>AddNetworkList\<close> goes straight to the cache
  write of the nil result. When that write succeeds, the call returns a nil result and
  no error; its only effects are the \<^verbatim>\<open>MkdirAll\<close> of the cache directory and the
  \<^verbatim>\<open>WriteFile\<close> of \<^verbatim>\<open>null\<close>, the serialization of nil, to the cache file of (list
  name, container id, interface name), so no plugin is dispatched; afterwards that file
  holds \<^verbatim>\<open>null\<close>.
\<close>

theorem AddNetworkList_empty:
  assumes "Plugins list = []"
    and "setCachedResult env None (list_Name list) rt w = (None, w')"
  shows "AddNetworkList env c list rt w = (Ok None, w')
       \<and> json_Marshal env None = Inr JNull
       \<and> events w' = events w @
             [MkdirAll_ev (filepath_Dir (getResultCacheFilePath (list_Name list) rt)) mode_0700,
              WriteFile_ev (getResultCacheFilePath (list_Name list) rt) JNull mode_0600]
       \<and> (\<exists>mode. map_of (fs w') (getResultCacheFilePath (list_Name list) rt)
                    = Some (File mode JNull))"
proof -
  have run: "AddNetworkList env c list rt w = (Ok None, w')"
    using assms by (simp add: AddNetworkList_def)
  have null: "json_Marshal env None = Inr JNull"
    by (simp add: json_Marshal_def)
  from setCachedResult_success [OF assms(2)] null
  have "events w' = events w @
             [MkdirAll_ev (filepath_Dir (getResultCacheFilePath (list_Name list) rt)) mode_0700,
              WriteFile_ev (getResultCacheFilePath (list_Name list) rt) JNull mode_0600]"
    and "\<exists>mode. map_of (fs w') (getResultCacheFilePath (list_Name list) rt)
                    = Some (File mode JNull)"
    by auto
  with run null show ?thesis by simp
qed

theorem AddNetworkList_empty_witness:
  "Plugins (sample_list ''0.4.0'' []) = []
 \<and> fst (setCachedResult sample_env None ''net1'' sample_rt sample_world) = None
 \<and> fst (AddNetworkList sample_env sample_config (sample_list ''0.4.0'' []) sample_rt
           sample_world) = Ok None
 \<and> events (snd (AddNetworkList sample_env sample_config (sample_list ''0.4.0'' []) sample_rt
                   sample_world))
      = [MkdirAll_ev ''/var/lib/cni/results'' mode_0700,
         WriteFile_ev ''/var/lib/cni/results/net1-c1-eth0'' JNull mode_0600]
 \<and> map_of (fs (snd (AddNetworkList sample_env sample_config (sample_list ''0.4.0'' [])
                       sample_rt sample_world))) ''/var/lib/cni/results/net1-c1-eth0''
      = Some (File mode_0600 JNull)"
proof -
  let ?list = "sample_list ''0.4.0'' []"
  let ?w' = "snd (setCachedResult sample_env None ''net1'' sample_rt sample_world)"
  have empty: "Plugins ?list = []" and name: "list_Name ?list = ''net1''"
    by (simp_all add: sample_list_def)
  have ok: "fst (setCachedResult sample_env None ''net1'' sample_rt sample_world) = None"
    by code_simp
  then have put: "setCachedResult sample_env None (list_Name ?list) sample_rt sample_world
                    = (None, ?w')"
    by (simp add: prod_eq_iff name)
  have path: "getResultCacheFilePath ''net1'' sample_rt = ''/var/lib/cni/results/net1-c1-eth0''"
    and dir: "filepath_Dir ''/var/lib/cni/results/net1-c1-eth0'' = ''/var/lib/cni/results''"
    by code_simp+
  have written: "map_of (fs ?w') ''/var/lib/cni/results/net1-c1-eth0''
                   = Some (File mode_0600 JNull)"
    by code_simp
  from AddNetworkList_empty [OF empty put, of sample_config]
  have "AddNetworkList sample_env sample_config ?list sample_rt sample_world = (Ok None, ?w')"
    and "events ?w' = events sample_world @
           [MkdirAll_ev ''/var/lib/cni/results'' mode_0700,
            WriteFile_ev ''/var/lib/cni/results/net1-c1-eth0'' JNull mode_0600]"
    unfolding name path dir by blast+
  with empty ok written show ?thesis
    by (simp add: sample_world_def)
qed

subsection \<open>Documents handed to the plugins\<close>

lemma new_events_same [simp]: "new_events w w = []"
  by (simp add: new_events_def)

lemma new_events_append: "events w' = events w @ evs \<Longrightarrow> new_events w w' = evs"
  by (simp add: new_events_def)

lemma handed_same [simp]: "handed w w = []"
  by (simp add: handed_def map_filter_simps)

lemma handed_log_event:
  "dispatch_of ev = Some d \<Longrightarrow> handed w (log_event ev w) = [d]"
  by (simp add: handed_def new_events_def map_filter_simps)

lemma handed_dispatches:
  assumes "events w' = events w @ evs"
    and "\<forall>j<length evs. dispatch_of (evs ! j) = Some (ds ! j)"
    and "length ds = length evs"
  shows "handed w w' = ds"
proof -
  have "List.map_filter dispatch_of evs = ds"
    using assms(2,3)
  proof (induction evs arbitrary: ds)
    case Nil
    then show ?case by (simp add: map_filter_simps)
  next
    case (Cons ev evs)
    then obtain d ds' where ds: "ds = d # ds'" by (cases ds) auto
    from Cons.prems(1) [rule_format, of 0] ds have d: "dispatch_of ev = Some d" by simp
    have "\<forall>j<length evs. dispatch_of (evs ! j) = Some (ds' ! j)"
      using Cons.prems(1) ds by (auto dest: spec [of _ "Suc _"])
    with Cons.IH [of ds'] Cons.prems(2) ds have "List.map_filter dispatch_of evs = ds'"
      by simp
    with d ds show ?case by (simp add: map_filter_simps)
  qed
  with new_events_append [OF assms(1)] show ?thesis
    by (simp add: handed_def)
qed

lemma handed_trans:
  assumes "events w1 = events w @ evs1" "events w2 = events w1 @ evs2"
  shows "handed w w2 = handed w w1 @ handed w1 w2"
proof -
  from assms have "events w2 = events w @ (evs1 @ evs2)" by simp
  from new_events_append [OF this] new_events_append [OF assms(1)]
       new_events_append [OF assms(2)]
  show ?thesis
    by (simp add: handed_def map_filter_def)
qed

lemma addNetwork_handed:
  assumes "addNetwork env c name ver net prev rt w = (out, w')"
  shows "(handed w w' = [] \<and> (\<exists>err. out = Err err))
       \<or> (\<exists>newConf. buildOneConfig env name ver net prev rt = Inr newConf
             \<and> handed w w' = [(''ADD'', Bytes newConf)])"
  using addNetwork_step [OF assms] by (auto simp: handed_log_event)

lemma AddNetworkList_loop_append:
  "AddNetworkList_loop env c list (xs @ ys) prev rt w =
     (case AddNetworkList_loop env c list xs prev rt w of
        (Ok res, w1) \<Rightarrow> AddNetworkList_loop env c list ys res rt w1
      | (Err err, w1) \<Rightarrow> (Err err, w1)
      | (Exited, w1) \<Rightarrow> (Exited, w1))"
  by (induction xs arbitrary: prev w) (auto split: prod.splits outcome.splits)

lemma handed_indexed:
  assumes "events w' = events w @ evs"
    and "\<forall>j<length evs. \<exists>d. dispatch_of (evs ! j) = Some d \<and> P j d"
  shows "length (handed w w') = length evs \<and> (\<forall>j<length evs. P j (handed w w' ! j))"
proof -
  let ?ds = "map (\<lambda>ev. the (dispatch_of ev)) evs"
  have "\<forall>j<length evs. dispatch_of (evs ! j) = Some (?ds ! j)"
    using assms(2) by auto
  from handed_dispatches [OF assms(1) this] have "handed w w' = ?ds" by simp
  moreover have "\<forall>j<length evs. P j (?ds ! j)"
    using assms(2) by auto
  ultimately show ?thesis by simp
qed

lemma handed_none:
  assumes "events w' = events w @ evs" and "\<forall>ev\<in>set evs. dispatch_of ev = None"
  shows "handed w w' = []"
proof -
  have "List.map_filter dispatch_of evs = []"
    using assms(2) by (induction evs) (simp_all add: map_filter_simps)
  with new_events_append [OF assms(1)] show ?thesis by (simp add: handed_def)
qed

lemma AddNetworkList_handed:
  assumes "AddNetworkList env c list rt w = (out, w')"
  shows "length (handed w w') \<le> length (Plugins list)
       \<and> (\<forall>j<length (handed w w'). \<exists>prev newConf.
              buildOneConfig env (list_Name list) (list_CNIVersion list) (Plugins list ! j)
                prev rt = Inr newConf
              \<and> handed w w' ! j = (''ADD'', Bytes newConf))
       \<and> (\<forall>res. out = Ok res \<longrightarrow> length (handed w w') = length (Plugins list))"
proof -
  obtain out1 w1 where loop:
    "AddNetworkList_loop env c list (Plugins list) None rt w = (out1, w1)"
    by (cases "AddNetworkList_loop env c list (Plugins list) None rt w")
  from AddNetworkList_loop_events [OF loop] obtain evs where evs:
    "events w1 = events w @ evs" "length evs \<le> length (Plugins list)"
    "\<forall>j<length evs. \<exists>pr newConf.
        buildOneConfig env (list_Name list) (list_CNIVersion list) (Plugins list ! j) pr rt
          = Inr newConf
        \<and> dispatch_of (evs ! j) = Some (''ADD'', Bytes newConf)"
    "\<forall>res. out1 = Ok res \<longrightarrow> length evs = length (Plugins list)"
    by (elim exE conjE) (rule that; assumption)
  let ?P = "\<lambda>j d. \<exists>prev newConf.
              buildOneConfig env (list_Name list) (list_CNIVersion list) (Plugins list ! j)
                prev rt = Inr newConf
              \<and> d = (''ADD'', Bytes newConf)"
  have "\<forall>j<length evs. \<exists>d. dispatch_of (evs ! j) = Some d \<and> ?P j d"
    using evs(3) by blast
  from handed_indexed [OF evs(1), of ?P, OF this]
  have h1: "length (handed w w1) = length evs" "\<forall>j<length evs. ?P j (handed w w1 ! j)"
    by blast+
  have same: "handed w w' = handed w w1 \<and> (\<forall>res. out = Ok res \<longrightarrow> out1 = Ok res)"
  proof (cases out1)
    case (Ok res)
    obtain err w2 where put: "setCachedResult env res (list_Name list) rt w1 = (err, w2)"
      by (cases "setCachedResult env res (list_Name list) rt w1")
    from setCachedResult_events [OF put] obtain evs2 where evs2:
      "events w2 = events w1 @ evs2" "\<forall>ev\<in>set evs2. dispatch_of ev = None"
      by blast
    from assms loop Ok put have w': "w' = w2" and out: "\<forall>res'. out = Ok res' \<longrightarrow> res' = res"
      by (auto simp: AddNetworkList_def split: option.splits)
    from handed_trans [OF evs(1) evs2(1)] handed_none [OF evs2] w' out Ok
    show ?thesis by simp
  next
    case (Err err)
    with assms loop show ?thesis by (simp add: AddNetworkList_def)
  next
    case Exited
    with assms loop show ?thesis by (simp add: AddNetworkList_def)
  qed
  with h1 evs(2,4) show ?thesis by simp
qed

text \<open>
  C1, as amended. \<^verbatim>\<open>AddNetworkList\<close> dispatches the plugins in forward order: the
  \<open>j\<close>-th document it hands out is a derived configuration of the \<open>j\<close>-th plugin, and
  on success there is one for each plugin. The result is threaded: once the plugins
  before \<open>p\<close> have succeeded and \<open>p\<close> has returned the result \<open>r\<close>, the next step is
  the dispatch of the following plugin \<open>q\<close> with \<open>r\<close>, and the document handed to \<open>q\<close>
  has under \<^verbatim>\<open>prevResult\<close> the serialization of \<open>r\<close>. The first plugin is dispatched
  with no previous result, so nothing is injected under \<^verbatim>\<open>prevResult\<close>: its document
  has that field only as far as the plugin's own document has it, unchanged.
\<close>

theorem result_threading:
  "(AddNetworkList env c list rt w = (out, w') \<longrightarrow>
      length (handed w w') \<le> length (Plugins list)
    \<and> (\<forall>j<length (handed w w'). \<exists>prev newConf.
          buildOneConfig env (list_Name list) (list_CNIVersion list) (Plugins list ! j)
            prev rt = Inr newConf
          \<and> handed w w' ! j = (''ADD'', Bytes newConf))
    \<and> (\<forall>res. out = Ok res \<longrightarrow> length (handed w w') = length (Plugins list)))
 \<and> (Plugins list = pre @ p # q # post
      \<and> AddNetworkList_loop env c list pre None rt w = (Ok prev, w0)
      \<and> addNetwork env c (list_Name list) (list_CNIVersion list) p prev rt w0 = (Ok r, w1) \<longrightarrow>
      AddNetworkList_loop env c list (Plugins list) None rt w =
        (case addNetwork env c (list_Name list) (list_CNIVersion list) q (Some r) rt w1 of
           (Ok r', w2) \<Rightarrow> AddNetworkList_loop env c list post (Some r') rt w2
         | (Err err, w2) \<Rightarrow> (Err err, w2)
         | (Exited, w2) \<Rightarrow> (Exited, w2))
    \<and> (\<forall>(cmd, doc) \<in> set (handed w1
            (snd (addNetwork env c (list_Name list) (list_CNIVersion list) q (Some r) rt w1))).
          cmd = ''ADD'' \<and> (\<exists>j. Marshal env r = Inr j \<and> field doc ''prevResult'' = Some j)))
 \<and> (Plugins list = p # post \<longrightarrow>
      AddNetworkList_loop env c list (Plugins list) None rt w =
        (case addNetwork env c (list_Name list) (list_CNIVersion list) p None rt w of
           (Ok r', w2) \<Rightarrow> AddNetworkList_loop env c list post (Some r') rt w2
         | (Err err, w2) \<Rightarrow> (Err err, w2)
         | (Exited, w2) \<Rightarrow> (Exited, w2))
    \<and> (\<forall>(cmd, doc) \<in> set (handed w
            (snd (addNetwork env c (list_Name list) (list_CNIVersion list) p None rt w))).
          cmd = ''ADD'' \<and> field doc ''prevResult'' = field (Bytes p) ''prevResult''))"
proof (intro conjI impI)
  assume "AddNetworkList env c list rt w = (out, w')"
  from AddNetworkList_handed [OF this]
  show "length (handed w w') \<le> length (Plugins list)"
    and "\<forall>j<length (handed w w'). \<exists>prev newConf.
          buildOneConfig env (list_Name list) (list_CNIVersion list) (Plugins list ! j)
            prev rt = Inr newConf
          \<and> handed w w' ! j = (''ADD'', Bytes newConf)"
    and "\<forall>res. out = Ok res \<longrightarrow> length (handed w w') = length (Plugins list)"
    by blast+
next
  assume a: "Plugins list = pre @ p # q # post
      \<and> AddNetworkList_loop env c list pre None rt w = (Ok prev, w0)
      \<and> addNetwork env c (list_Name list) (list_CNIVersion list) p prev rt w0 = (Ok r, w1)"
  then show "AddNetworkList_loop env c list (Plugins list) None rt w =
        (case addNetwork env c (list_Name list) (list_CNIVersion list) q (Some r) rt w1 of
           (Ok r', w2) \<Rightarrow> AddNetworkList_loop env c list post (Some r') rt w2
         | (Err err, w2) \<Rightarrow> (Err err, w2)
         | (Exited, w2) \<Rightarrow> (Exited, w2))"
    by (simp add: AddNetworkList_loop_append)
  obtain out2 w2 where step:
    "addNetwork env c (list_Name list) (list_CNIVersion list) q (Some r) rt w1 = (out2, w2)"
    by (cases "addNetwork env c (list_Name list) (list_CNIVersion list) q (Some r) rt w1")
  from addNetwork_handed [OF step] buildOneConfig_doc(3) [of env _ _ q "Some r" rt]
  show "\<forall>(cmd, doc) \<in> set (handed w1
            (snd (addNetwork env c (list_Name list) (list_CNIVersion list) q (Some r) rt w1))).
          cmd = ''ADD'' \<and> (\<exists>j. Marshal env r = Inr j \<and> field doc ''prevResult'' = Some j)"
    unfolding step by fastforce
next
  assume a: "Plugins list = p # post"
  then show "AddNetworkList_loop env c list (Plugins list) None rt w =
        (case addNetwork env c (list_Name list) (list_CNIVersion list) p None rt w of
           (Ok r', w2) \<Rightarrow> AddNetworkList_loop env c list post (Some r') rt w2
         | (Err err, w2) \<Rightarrow> (Err err, w2)
         | (Exited, w2) \<Rightarrow> (Exited, w2))"
    by simp
  obtain out2 w2 where step:
    "addNetwork env c (list_Name list) (list_CNIVersion list) p None rt w = (out2, w2)"
    by (cases "addNetwork env c (list_Name list) (list_CNIVersion list) p None rt w")
  from addNetwork_handed [OF step] buildOneConfig_doc(3) [of env _ _ p None rt]
  show "\<forall>(cmd, doc) \<in> set (handed w
            (snd (addNetwork env c (list_Name list) (list_CNIVersion list) p None rt w))).
          cmd = ''ADD'' \<and> field doc ''prevResult'' = field (Bytes p) ''prevResult''"
    unfolding step by fastforce
qed

text \<open>
  The scenario S2: \<^verbatim>\<open>bridge\<close> returns its result, and the document handed to
  \<^verbatim>\<open>portmap\<close> holds it under \<^verbatim>\<open>prevResult\<close>; the document handed to \<^verbatim>\<open>bridge\<close>,
  whose own document has no such key, has none.
\<close>

theorem result_threading_witness:
  "fst (addNetwork sample_env sample_config ''net1'' ''0.4.0'' (sample_plugin ''bridge'' [])
          None sample_rt sample_world) = Ok (sample_result ''/opt/cni/bin/bridge'')
 \<and> map (\<lambda>(cmd, doc). (cmd, field doc ''type'', field doc ''prevResult''))
       (handed sample_world
          (snd (AddNetworkList sample_env sample_config
                  (sample_list ''0.4.0'' [sample_plugin ''bridge'' [], sample_plugin ''portmap'' []])
                  sample_rt sample_world)))
     = [(''ADD'', Some (JString ''bridge''), None),
        (''ADD'', Some (JString ''portmap''), Some (sample_result ''/opt/cni/bin/bridge''))]
 \<and> list_all (\<lambda>(cmd, doc). field doc ''prevResult'' = Some (sample_result ''/opt/cni/bin/bridge''))
       (handed
          (snd (addNetwork sample_env sample_config ''net1'' ''0.4.0''
                  (sample_plugin ''bridge'' []) None sample_rt sample_world))
          (snd (addNetwork sample_env sample_config ''net1'' ''0.4.0''
                  (sample_plugin ''portmap'' []) (Some (sample_result ''/opt/cni/bin/bridge''))
                  sample_rt
                  (snd (addNetwork sample_env sample_config ''net1'' ''0.4.0''
                          (sample_plugin ''bridge'' []) None sample_rt sample_world)))))
 \<and> list_all (\<lambda>(cmd, doc). field doc ''prevResult'' = None)
       (handed sample_world
          (snd (addNetwork sample_env sample_config ''net1'' ''0.4.0''
                  (sample_plugin ''bridge'' []) None sample_rt sample_world)))
 \<and> fst (AddNetworkList sample_env sample_config
          (sample_list ''0.4.0'' [sample_plugin ''bridge'' [], sample_plugin ''portmap'' []])
          sample_rt sample_world) = Ok (Some (sample_result ''/opt/cni/bin/portmap''))
 \<and> length (handed sample_world
          (snd (AddNetworkList sample_env sample_config
                  (sample_list ''0.4.0'' [sample_plugin ''bridge'' [], sample_plugin ''portmap'' []])
                  sample_rt sample_world))) = 2"
proof -
  let ?p = "sample_plugin ''bridge'' []"
  let ?q = "sample_plugin ''portmap'' []"
  let ?list = "sample_list ''0.4.0'' [?p, ?q]"
  let ?r = "sample_result ''/opt/cni/bin/bridge''"
  let ?w1 = "snd (addNetwork sample_env sample_config ''net1'' ''0.4.0'' ?p None sample_rt
                    sample_world)"
  have names: "list_Name ?list = ''net1''" "list_CNIVersion ?list = ''0.4.0''"
    and plugins: "Plugins ?list = [] @ ?p # ?q # []" "Plugins ?list = ?p # [?q]"
    by (simp_all add: sample_list_def)
  have first: "fst (addNetwork sample_env sample_config ''net1'' ''0.4.0'' ?p None sample_rt
                      sample_world) = Ok ?r"
    by code_simp
  then have step: "addNetwork sample_env sample_config (list_Name ?list) (list_CNIVersion ?list)
                     ?p None sample_rt sample_world = (Ok ?r, ?w1)"
    by (simp add: prod_eq_iff names)
  have start: "AddNetworkList_loop sample_env sample_config ?list [] None sample_rt sample_world
                 = (Ok None, sample_world)"
    by simp
  have marshal: "Marshal sample_env ?r = Inr ?r"
    by (simp add: sample_env_def)
  have own: "field (Bytes ?p) ''prevResult'' = None"
    by code_simp
  have run: "map (\<lambda>(cmd, doc). (cmd, field doc ''type'', field doc ''prevResult''))
       (handed sample_world
          (snd (AddNetworkList sample_env sample_config ?list sample_rt sample_world)))
     = [(''ADD'', Some (JString ''bridge''), None),
        (''ADD'', Some (JString ''portmap''), Some ?r)]"
    by code_simp
  note inst = result_threading
    [where env = sample_env and c = sample_config and list = ?list and rt = sample_rt
       and w = sample_world and pre = "[]" and p = ?p and q = ?q and post = "[]"
       and prev = None and ?w0.0 = sample_world and r = ?r and ?w1.0 = ?w1]
  note inst0 = result_threading
    [where env = sample_env and c = sample_config and list = ?list and rt = sample_rt
       and w = sample_world and p = ?p and post = "[?q]"]
  from inst plugins(1) start step
  have "\<forall>(cmd, doc) \<in> set (handed ?w1
            (snd (addNetwork sample_env sample_config (list_Name ?list) (list_CNIVersion ?list)
                    ?q (Some ?r) sample_rt ?w1))).
          cmd = ''ADD'' \<and> (\<exists>j. Marshal sample_env ?r = Inr j \<and> field doc ''prevResult'' = Some j)"
    by blast
  then have threaded: "list_all (\<lambda>(cmd, doc). field doc ''prevResult'' = Some ?r)
       (handed ?w1
          (snd (addNetwork sample_env sample_config ''net1'' ''0.4.0'' ?q (Some ?r) sample_rt ?w1)))"
    unfolding names by (auto simp: list_all_iff marshal)
  from inst0 plugins(2)
  have "\<forall>(cmd, doc) \<in> set (handed sample_world
            (snd (addNetwork sample_env sample_config (list_Name ?list) (list_CNIVersion ?list)
                    ?p None sample_rt sample_world))).
          cmd = ''ADD'' \<and> field doc ''prevResult'' = field (Bytes ?p) ''prevResult''"
    by blast
  then have none: "list_all (\<lambda>(cmd, doc). field doc ''prevResult'' = None)
       (handed sample_world ?w1)"
    unfolding names by (auto simp: list_all_iff own)
  have finished: "fst (AddNetworkList sample_env sample_config ?list sample_rt sample_world)
                = Ok (Some (sample_result ''/opt/cni/bin/portmap''))"
    by code_simp
  then have whole: "AddNetworkList sample_env sample_config ?list sample_rt sample_world
      = (Ok (Some (sample_result ''/opt/cni/bin/portmap'')),
         snd (AddNetworkList sample_env sample_config ?list sample_rt sample_world))"
    by (simp add: prod_eq_iff)
  from result_threading
    [where env = sample_env and c = sample_config and list = ?list and rt = sample_rt
       and w = sample_world and out = "Ok (Some (sample_result ''/opt/cni/bin/portmap''))"
       and w' = "snd (AddNetworkList sample_env sample_config ?list sample_rt sample_world)"]
       whole
  have all: "length (handed sample_world
          (snd (AddNetworkList sample_env sample_config ?list sample_rt sample_world)))
        = length (Plugins ?list)"
    by blast
  from first run threaded none finished all show ?thesis
    by (simp add: sample_list_def)
qed

text \<open>
  The claim as stated fails for the first plugin when its own document already has a
  \<^verbatim>\<open>prevResult\<close> key: nothing is injected, and the key is carried over into the
  document handed to the plugin.
\<close>

theorem first_plugin_keeps_own_prevResult:
  "map (\<lambda>(cmd, doc). (cmd, field doc ''prevResult''))
     (handed sample_world
        (snd (AddNetworkList sample_env sample_config (sample_list ''0.4.0'' [stale_plugin])
                sample_rt sample_world)))
   = [(''ADD'', Some (JObject [(''cniVersion'', JString ''0.3.1''),
                              (''madeBy'', JString ''an earlier run'')]))]"
  by code_simp

subsection \<open>Capability filtering at every dispatch\<close>







subsection \<open>The DEL walk\<close>

lemma delNetwork_handed:
  assumes "delNetwork env c name ver net prev rt w = (out, w')"
  shows "(w' = w \<and> (\<exists>err. out = Err err))
       \<or> (\<exists>ev newConf. w' = log_event ev w
             \<and> buildOneConfig env name ver net prev rt = Inr newConf
             \<and> handed w w' = [(''DEL'', Bytes newConf)])"
  using delNetwork_step [OF assms] by (auto simp: handed_log_event)

lemma DelNetworkList_loop_handed:
  assumes "DelNetworkList_loop env c list n cached rt w = (out, w')"
  shows "fs w' = fs w
       \<and> length (handed w w') = length (new_events w w')
       \<and> length (handed w w') \<le> n
       \<and> (\<forall>j<length (handed w w'). \<exists>newConf.
              buildOneConfig env (list_Name list) (list_CNIVersion list)
                (Plugins list ! (n - 1 - j)) cached rt = Inr newConf
              \<and> handed w w' ! j = (''DEL'', Bytes newConf))
       \<and> (out = Ok () \<longrightarrow> length (handed w w') = n)"
proof -
  from DelNetworkList_loop_events [OF assms] obtain evs where evs:
    "events w' = events w @ evs" "fs w' = fs w" "length evs \<le> n"
    "\<forall>j<length evs. \<exists>newConf.
        buildOneConfig env (list_Name list) (list_CNIVersion list)
          (Plugins list ! (n - 1 - j)) cached rt = Inr newConf
        \<and> dispatch_of (evs ! j) = Some (''DEL'', Bytes newConf)"
    "out = Ok () \<longrightarrow> length evs = n"
    by (elim exE conjE) (rule that; assumption)
  let ?P = "\<lambda>j d. \<exists>newConf.
        buildOneConfig env (list_Name list) (list_CNIVersion list)
          (Plugins list ! (n - 1 - j)) cached rt = Inr newConf
        \<and> d = (''DEL'', Bytes newConf)"
  have "\<forall>j<length evs. \<exists>d. dispatch_of (evs ! j) = Some d \<and> ?P j d"
    using evs(4) by blast
  from handed_indexed [OF evs(1), of ?P, OF this]
  have "length (handed w w') = length evs" "\<forall>j<length evs. ?P j (handed w w' ! j)"
    by blast+
  with evs(2,3,5) new_events_append [OF evs(1)] show ?thesis by simp
qed

lemma DelNetworkList_loop_abort:
  assumes "DelNetworkList_loop env c list n cached rt w = (out, w')" and "out \<noteq> Ok ()"
  shows "\<exists>i<n. \<exists>w2. delNetwork env c (list_Name list) (list_CNIVersion list)
                        (Plugins list ! i) cached rt w2 = (out, w')
                  \<and> (\<exists>evs. events w2 = events w @ evs)
                  \<and> length (handed w w2) = n - 1 - i"
  using assms
proof (induction n arbitrary: w)
  case 0
  then show ?case by simp
next
  case (Suc i')
  let ?net = "Plugins list ! i'"
  obtain out1 w1 where step:
    "delNetwork env c (list_Name list) (list_CNIVersion list) ?net cached rt w = (out1, w1)"
    by (cases "delNetwork env c (list_Name list) (list_CNIVersion list) ?net cached rt w")
  show ?case
  proof (cases "out1 = Ok ()")
    case False
    with Suc.prems(1) step have "out = out1" "w' = w1"
      by (cases out1; simp add: Let_def)+
    with step have "delNetwork env c (list_Name list) (list_CNIVersion list)
                      (Plugins list ! i') cached rt w = (out, w')
                  \<and> (\<exists>evs. events w = events w @ evs)
                  \<and> length (handed w w) = Suc i' - 1 - i'"
      by simp
    then show ?thesis by blast
  next
    case True
    with Suc.prems(1) step
    have rest: "DelNetworkList_loop env c list i' cached rt w1 = (out, w')"
      by (simp add: Let_def)
    from delNetwork_handed [OF step] True obtain ev d where
      w1: "w1 = log_event ev w" and one: "handed w w1 = [d]"
      by auto
    from Suc.IH [OF rest Suc.prems(2)] obtain i w2 evs where i: "i < i'"
      and fail: "delNetwork env c (list_Name list) (list_CNIVersion list)
                   (Plugins list ! i) cached rt w2 = (out, w')"
      and ext: "events w2 = events w1 @ evs"
      and len: "length (handed w1 w2) = i' - 1 - i"
      by blast
    have e1: "events w1 = events w @ [ev]" using w1 by simp
    from handed_trans [OF e1 ext] one len i
    have "length (handed w w2) = Suc i' - 1 - i" by simp
    moreover from e1 ext have "\<exists>evs'. events w2 = events w @ evs'" by simp
    ultimately have "i < Suc i' \<and> delNetwork env c (list_Name list) (list_CNIVersion list)
                      (Plugins list ! i) cached rt w2 = (out, w')
                  \<and> (\<exists>evs. events w2 = events w @ evs)
                  \<and> length (handed w w2) = Suc i' - 1 - i"
      using i fail by simp
    then show ?thesis by blast
  qed
qed

lemma DelNetworkList_loop_split:
  assumes "Plugins list = pre @ ys" and "k \<le> length ys"
  shows "DelNetworkList_loop env c list (length pre + k) cached rt w =
     (case DelNetworkList_loop env c (list\<lparr>Plugins := ys\<rparr>) k cached rt w of
        (Ok u, w2) \<Rightarrow> DelNetworkList_loop env c list (length pre) cached rt w2
      | (Err err, w2) \<Rightarrow> (Err err, w2)
      | (Exited, w2) \<Rightarrow> (Exited, w2))"
  using assms(2)
proof (induction k arbitrary: w)
  case 0
  show ?case by simp
next
  case (Suc k)
  then have k: "k \<le> length ys" "k < length ys" by simp_all
  have net: "Plugins list ! (length pre + k) = ys ! k"
    by (simp add: assms(1) nth_append)
  obtain out1 w1 where step:
    "delNetwork env c (list_Name list) (list_CNIVersion list) (ys ! k) cached rt w = (out1, w1)"
    by (cases "delNetwork env c (list_Name list) (list_CNIVersion list) (ys ! k) cached rt w")
  show ?case
    using Suc.IH [OF k(1), of w1] step net
    by (cases out1) (simp_all add: Let_def)
qed

lemma delNetwork_local:
  assumes "\<not> ClientgRPC c"
    and "prepare env c name ver net prev rt = Inr (pluginPath, newConf, capabilityArgs, cniArgs)"
  shows "delNetwork env c name ver net prev rt w =
           ((case ExecPluginWithoutResult env (events w) pluginPath (Bytes newConf)
                   (args c ''DEL'' rt) of
               Some err \<Rightarrow> Err err
             | None \<Rightarrow> Ok ()),
            log_event (ExecPlugin_ev pluginPath (Bytes newConf) (args c ''DEL'' rt)) w)"
  using assms by (simp add: delNetwork_def Let_def split: option.splits)

lemma DelNetworkList_abort_at:
  assumes pl: "Plugins list = pre @ p # post"
    and post: "DelNetworkList_loop env c (list\<lparr>Plugins := post\<rparr>) (length post) cached rt w1
                 = (Ok (), w2)"
    and fail: "delNetwork env c (list_Name list) (list_CNIVersion list) p cached rt w2
                 = (Err err, w3)"
  shows "DelNetworkList_loop env c list (length (Plugins list)) cached rt w1 = (Err err, w3)"
    and "handed w1 w3 = handed w1 w2 @ handed w2 w3"
    and "length (handed w1 w2) = length post"
    and "length (handed w2 w3) \<le> 1"
proof -
  have pl': "Plugins list = (pre @ [p]) @ post" using pl by simp
  have n: "length (Plugins list) = length (pre @ [p]) + length post" using pl by simp
  have p: "Plugins list ! length pre = p" using pl by (simp add: nth_append)
  from DelNetworkList_loop_split [OF pl' order_refl, of env c cached rt w1] post
  have "DelNetworkList_loop env c list (length (Plugins list)) cached rt w1 =
          DelNetworkList_loop env c list (Suc (length pre)) cached rt w2"
    unfolding n by simp
  also have "\<dots> = (Err err, w3)"
    using fail p by (simp add: Let_def)
  finally show "DelNetworkList_loop env c list (length (Plugins list)) cached rt w1 = (Err err, w3)" .
  from DelNetworkList_loop_handed [OF post]
  show "length (handed w1 w2) = length post" by simp
  from DelNetworkList_loop_events [OF post] obtain evs where evs: "events w2 = events w1 @ evs"
    by blast
  from delNetwork_handed [OF fail] have one: "w3 = w2 \<or> (\<exists>ev. w3 = log_event ev w2)"
    and len: "length (handed w2 w3) \<le> 1"
    by auto
  from one obtain evs' where "events w3 = events w2 @ evs'" by auto
  from handed_trans [OF evs this]
  show "handed w1 w3 = handed w1 w2 @ handed w2 w3" .
  from len show "length (handed w2 w3) \<le> 1" .
qed

lemma DelNetworkList_walk_core:
  assumes "GreaterThanOrEqualTo env (list_CNIVersion list) ''0.4.0'' = Inr gtet"
    and "(if gtet then getCachedResult env (list_Name list) (list_CNIVersion list) rt w
          else ((None, None), w)) = ((cached, None), w1)"
    and "DelNetworkList env c list rt w = (out, w')"
  shows "(if gtet
          then w1 = log_event (ReadFile_ev (getResultCacheFilePath (list_Name list) rt)) w
          else cached = None \<and> w1 = w)
       \<and> length (handed w1 w') \<le> length (Plugins list)
       \<and> (\<forall>j<length (handed w1 w'). \<exists>newConf.
              buildOneConfig env (list_Name list) (list_CNIVersion list)
                (rev (Plugins list) ! j) cached rt = Inr newConf
              \<and> handed w1 w' ! j = (''DEL'', Bytes newConf))
       \<and> (out = Ok ()) =
           (fst (DelNetworkList_loop env c list (length (Plugins list)) cached rt w1) = Ok ())
       \<and> (out = Ok () \<longrightarrow>
             length (handed w1 w') = length (Plugins list)
           \<and> last (new_events w1 w') = Remove_ev (getResultCacheFilePath (list_Name list) rt)
           \<and> length (new_events w1 w') = Suc (length (Plugins list))
           \<and> fs w' = snd (Remove (getResultCacheFilePath (list_Name list) rt) (fs w1)))
       \<and> (out \<noteq> Ok () \<longrightarrow>
             fs w' = fs w1
           \<and> length (new_events w1 w') = length (handed w1 w')
           \<and> (\<exists>i<length (Plugins list). \<exists>w2.
                 delNetwork env c (list_Name list) (list_CNIVersion list) (Plugins list ! i)
                   cached rt w2 = (out, w')
               \<and> length (handed w1 w2) = length (Plugins list) - 1 - i))"
proof -
  let ?n = "length (Plugins list)"
  let ?path = "getResultCacheFilePath (list_Name list) rt"
  obtain out2 w2 where loop: "DelNetworkList_loop env c list ?n cached rt w1 = (out2, w2)"
    by (cases "DelNetworkList_loop env c list ?n cached rt w1")
  obtain err w3 where del: "delCachedResult (list_Name list) rt w2 = (err, w3)"
    by (cases "delCachedResult (list_Name list) rt w2")
  have read: "if gtet then w1 = log_event (ReadFile_ev ?path) w else cached = None \<and> w1 = w"
  proof (cases gtet)
    case True
    with assms(2) getCachedResult_world show ?thesis by auto
  next
    case False
    with assms(2) show ?thesis by simp
  qed
  from DelNetworkList_loop_handed [OF loop]
  have h: "fs w2 = fs w1" "length (handed w1 w2) = length (new_events w1 w2)"
    "length (handed w1 w2) \<le> ?n"
    "\<forall>j<length (handed w1 w2). \<exists>newConf.
        buildOneConfig env (list_Name list) (list_CNIVersion list)
          (Plugins list ! (?n - 1 - j)) cached rt = Inr newConf
        \<and> handed w1 w2 ! j = (''DEL'', Bytes newConf)"
    "out2 = Ok () \<longrightarrow> length (handed w1 w2) = ?n"
    by blast+
  have reversed: "\<forall>j<length (handed w1 w2). \<exists>newConf.
        buildOneConfig env (list_Name list) (list_CNIVersion list)
          (rev (Plugins list) ! j) cached rt = Inr newConf
        \<and> handed w1 w2 ! j = (''DEL'', Bytes newConf)"
  proof (intro allI impI)
    fix j assume j: "j < length (handed w1 w2)"
    with h(3) have "j < ?n" by simp
    then have "rev (Plugins list) ! j = Plugins list ! (?n - 1 - j)"
      by (simp add: rev_nth)
    with h(4) j show "\<exists>newConf.
        buildOneConfig env (list_Name list) (list_CNIVersion list)
          (rev (Plugins list) ! j) cached rt = Inr newConf
        \<and> handed w1 w2 ! j = (''DEL'', Bytes newConf)"
      by simp
  qed
  from DelNetworkList_loop_events [OF loop] obtain evs where evs: "events w2 = events w1 @ evs"
    by blast
  have run: "DelNetworkList env c list rt w =
               (case out2 of Ok u \<Rightarrow> (Ok (), w3) | Err e \<Rightarrow> (Err e, w2) | Exited \<Rightarrow> (Exited, w2))"
    using assms(1,2) loop del
    by (cases gtet; cases out2) (simp_all add: DelNetworkList_def)
  show ?thesis
  proof (cases "out2 = Ok ()")
    case True
    with run assms(3) have out: "out = Ok ()" and w': "w' = w3" by simp_all
    note removed = delCachedResult_world [OF del]
    have none: "handed w2 w3 = []"
      by (rule handed_none [OF removed(1)]) simp
    from handed_trans [OF evs removed(1)] none have same: "handed w1 w3 = handed w1 w2"
      by simp
    from evs removed(1) have "events w3 = events w1 @ (evs @ [Remove_ev ?path])" by simp
    from new_events_append [OF this] new_events_append [OF evs]
    have new: "new_events w1 w3 = new_events w1 w2 @ [Remove_ev ?path]" by simp
    from read reversed h True out w' same new removed(2) loop show ?thesis
      by simp
  next
    case False
    with run assms(3) have out: "out = out2" and w': "w' = w2"
      by (cases out2; simp)+
    from DelNetworkList_loop_abort [OF loop False] obtain i w0 where
      "i < ?n"
      "delNetwork env c (list_Name list) (list_CNIVersion list) (Plugins list ! i)
         cached rt w0 = (out2, w2)"
      "length (handed w1 w0) = ?n - 1 - i"
      by blast
    then have abort: "\<exists>i<?n. \<exists>w0.
        delNetwork env c (list_Name list) (list_CNIVersion list) (Plugins list ! i)
          cached rt w0 = (out2, w2)
        \<and> length (handed w1 w0) = ?n - 1 - i"
      by blast
    from read reversed h False out w' loop abort show ?thesis
      by simp
  qed
qed

text \<open>
  C6, as amended. \<^verbatim>\<open>DelNetworkList\<close>, once the version comparison has answered and the
  cache read (made only when the version is at least \<^verbatim>\<open>0.4.0\<close>; otherwise the cached
  result is nil and nothing is read) has returned no error:
  \<^item> the documents handed out are DEL dispatches of the plugins in reverse list order,
    each the derived configuration built with the cached result as previous result: with
    a cached result its serialization is under \<^verbatim>\<open>prevResult\<close>; with none, nothing is
    injected there, and the field is what the plugin's own document has;
  \<^item> the call succeeds exactly when the walk over all plugins succeeds; then every
    plugin was dispatched, and the last effect is the removal of the cache file, whose
    own outcome is not looked at;
  \<^item> otherwise the call returns the outcome of the first \<^verbatim>\<open>delNetwork\<close> that did not
    succeed, in the world as that call left it: the plugins before it in the list are
    not attempted, nothing but dispatches was recorded, and the file system (with it
    the cache entry) is as it was;
  \<^item> the first dispatch that returns an error aborts the walk: when the plugins after
    \<open>p\<close> have succeeded and the dispatch of \<open>p\<close> returns an error, the call returns
    that error, and the documents handed out are those of the plugins after \<open>p\<close> and
    at most the one of \<open>p\<close>;
  \<^item> on the local transport the dispatch of a prepared plugin returns exactly what the
    plugin's execution returned, so there a plugin's error is such an error.
\<close>

theorem DelNetworkList_walk:
  assumes "GreaterThanOrEqualTo env (list_CNIVersion list) ''0.4.0'' = Inr gtet"
    and "(if gtet then getCachedResult env (list_Name list) (list_CNIVersion list) rt w
          else ((None, None), w)) = ((cached, None), w1)"
    and "DelNetworkList env c list rt w = (out, w')"
  shows "(if gtet
          then w1 = log_event (ReadFile_ev (getResultCacheFilePath (list_Name list) rt)) w
          else cached = None \<and> w1 = w)
       \<and> length (handed w1 w') \<le> length (Plugins list)
       \<and> (\<forall>j<length (handed w1 w'). \<exists>newConf.
              buildOneConfig env (list_Name list) (list_CNIVersion list)
                (rev (Plugins list) ! j) cached rt = Inr newConf
              \<and> handed w1 w' ! j = (''DEL'', Bytes newConf)
              \<and> (case cached of
                    None \<Rightarrow> field (Bytes newConf) ''prevResult''
                              = field (Bytes (rev (Plugins list) ! j)) ''prevResult''
                  | Some r \<Rightarrow> \<exists>js. Marshal env r = Inr js
                              \<and> field (Bytes newConf) ''prevResult'' = Some js))
       \<and> (out = Ok ()) =
           (fst (DelNetworkList_loop env c list (length (Plugins list)) cached rt w1) = Ok ())
       \<and> (out = Ok () \<longrightarrow>
             length (handed w1 w') = length (Plugins list)
           \<and> last (new_events w1 w') = Remove_ev (getResultCacheFilePath (list_Name list) rt)
           \<and> length (new_events w1 w') = Suc (length (Plugins list))
           \<and> fs w' = snd (Remove (getResultCacheFilePath (list_Name list) rt) (fs w1)))
       \<and> (out \<noteq> Ok () \<longrightarrow>
             fs w' = fs w1
           \<and> length (new_events w1 w') = length (handed w1 w')
           \<and> (\<exists>i<length (Plugins list). \<exists>w2.
                 delNetwork env c (list_Name list) (list_CNIVersion list) (Plugins list ! i)
                   cached rt w2 = (out, w')
               \<and> length (handed w1 w2) = length (Plugins list) - 1 - i))
       \<and> (Plugins list = pre @ p # post
            \<and> DelNetworkList_loop env c (list\<lparr>Plugins := post\<rparr>) (length post) cached rt w1
                = (Ok (), w2)
            \<and> delNetwork env c (list_Name list) (list_CNIVersion list) p cached rt w2
                = (Err err, w3) \<longrightarrow>
             out = Err err \<and> w' = w3
           \<and> handed w1 w' = handed w1 w2 @ handed w2 w3
           \<and> length (handed w1 w2) = length post
           \<and> length (handed w2 w3) \<le> 1)
       \<and> (\<not> ClientgRPC c
            \<and> prepare env c (list_Name list) (list_CNIVersion list) net cached rt
                = Inr (pluginPath, derived, capabilityArgs, cniArgs) \<longrightarrow>
             delNetwork env c (list_Name list) (list_CNIVersion list) net cached rt w0 =
               ((case ExecPluginWithoutResult env (events w0) pluginPath (Bytes derived)
                       (args c ''DEL'' rt) of
                   Some e \<Rightarrow> Err e
                 | None \<Rightarrow> Ok ()),
                log_event (ExecPlugin_ev pluginPath (Bytes derived) (args c ''DEL'' rt)) w0))"
proof -
  note core = DelNetworkList_walk_core [OF assms]
  have docs: "\<forall>j<length (handed w1 w'). \<exists>newConf.
              buildOneConfig env (list_Name list) (list_CNIVersion list)
                (rev (Plugins list) ! j) cached rt = Inr newConf
              \<and> handed w1 w' ! j = (''DEL'', Bytes newConf)
              \<and> (case cached of
                    None \<Rightarrow> field (Bytes newConf) ''prevResult''
                              = field (Bytes (rev (Plugins list) ! j)) ''prevResult''
                  | Some r \<Rightarrow> \<exists>js. Marshal env r = Inr js
                              \<and> field (Bytes newConf) ''prevResult'' = Some js)"
  proof (intro allI impI)
    fix j assume "j < length (handed w1 w')"
    with core obtain newConf where
      b: "buildOneConfig env (list_Name list) (list_CNIVersion list)
            (rev (Plugins list) ! j) cached rt = Inr newConf"
      and h: "handed w1 w' ! j = (''DEL'', Bytes newConf)"
      by blast
    from b h buildOneConfig_doc(3) [OF b]
    show "\<exists>newConf.
              buildOneConfig env (list_Name list) (list_CNIVersion list)
                (rev (Plugins list) ! j) cached rt = Inr newConf
              \<and> handed w1 w' ! j = (''DEL'', Bytes newConf)
              \<and> (case cached of
                    None \<Rightarrow> field (Bytes newConf) ''prevResult''
                              = field (Bytes (rev (Plugins list) ! j)) ''prevResult''
                  | Some r \<Rightarrow> \<exists>js. Marshal env r = Inr js
                              \<and> field (Bytes newConf) ''prevResult'' = Some js)"
      by blast
  qed
  have abort: "out = Err err \<and> w' = w3
           \<and> handed w1 w' = handed w1 w2 @ handed w2 w3
           \<and> length (handed w1 w2) = length post
           \<and> length (handed w2 w3) \<le> 1"
    if split: "Plugins list = pre @ p # post
            \<and> DelNetworkList_loop env c (list\<lparr>Plugins := post\<rparr>) (length post) cached rt w1
                = (Ok (), w2)
            \<and> delNetwork env c (list_Name list) (list_CNIVersion list) p cached rt w2
                = (Err err, w3)"
  proof -
    from split have pl: "Plugins list = pre @ p # post"
      and post: "DelNetworkList_loop env c (list\<lparr>Plugins := post\<rparr>) (length post) cached rt w1
                   = (Ok (), w2)"
      and fail: "delNetwork env c (list_Name list) (list_CNIVersion list) p cached rt w2
                   = (Err err, w3)"
      by simp_all
    note at = DelNetworkList_abort_at [OF pl post fail]
    from assms at(1) have "out = Err err" "w' = w3"
      by (cases gtet; simp add: DelNetworkList_def)+
    with at(2,3,4) show ?thesis by simp
  qed
  have local_exec: "delNetwork env c (list_Name list) (list_CNIVersion list) net cached rt w0 =
               ((case ExecPluginWithoutResult env (events w0) pluginPath (Bytes derived)
                       (args c ''DEL'' rt) of
                   Some e \<Rightarrow> Err e
                 | None \<Rightarrow> Ok ()),
                log_event (ExecPlugin_ev pluginPath (Bytes derived) (args c ''DEL'' rt)) w0)"
    if "\<not> ClientgRPC c
            \<and> prepare env c (list_Name list) (list_CNIVersion list) net cached rt
                = Inr (pluginPath, derived, capabilityArgs, cniArgs)"
    using that delNetwork_local by blast
  from core docs abort local_exec show ?thesis
    by blast
qed

text \<open>
  The scenario S4: after the ADD of \<^verbatim>\<open>bridge\<close> and \<^verbatim>\<open>portmap\<close>, DEL dispatches
  \<^verbatim>\<open>portmap\<close> first and \<^verbatim>\<open>bridge\<close> second, both with the cached result, and the
  cache file is gone afterwards. With the failing plugin in the middle of a chain, on
  the local transport, the walk ends there: \<^verbatim>\<open>portmap\<close> has succeeded, the
  execution of \<^verbatim>\<open>fail\<close> returns an error, \<^verbatim>\<open>bridge\<close> is not dispatched and the
  cache file stays.
\<close>

theorem DelNetworkList_walk_witness:
  "GreaterThanOrEqualTo sample_env ''0.4.0'' ''0.4.0'' = Inr True
 \<and> fst (getCachedResult sample_env ''net1'' ''0.4.0'' sample_rt cached_world)
     = (Some (sample_result ''/opt/cni/bin/bridge''), None)
 \<and> fst (DelNetworkList sample_env sample_config
           (sample_list ''0.4.0'' [sample_plugin ''bridge'' [], sample_plugin ''portmap'' []])
           sample_rt cached_world) = Ok ()
 \<and> map (\<lambda>(cmd, doc). (cmd, field doc ''type'', field doc ''prevResult''))
       (handed cached_world
          (snd (DelNetworkList sample_env sample_config
                  (sample_list ''0.4.0'' [sample_plugin ''bridge'' [], sample_plugin ''portmap'' []])
                  sample_rt cached_world)))
     = [(''DEL'', Some (JString ''portmap''), Some (sample_result ''/opt/cni/bin/bridge'')),
        (''DEL'', Some (JString ''bridge''), Some (sample_result ''/opt/cni/bin/bridge''))]
 \<and> last (events (snd (DelNetworkList sample_env sample_config
                  (sample_list ''0.4.0'' [sample_plugin ''bridge'' [], sample_plugin ''portmap'' []])
                  sample_rt cached_world)))
     = Remove_ev ''/var/lib/cni/results/net1-c1-eth0''
 \<and> map_of (fs (snd (DelNetworkList sample_env sample_config
                  (sample_list ''0.4.0'' [sample_plugin ''bridge'' [], sample_plugin ''portmap'' []])
                  sample_rt cached_world))) ''/var/lib/cni/results/net1-c1-eth0'' = None
 \<and> fst (DelNetworkList_loop sample_env sample_config
           (sample_list ''0.4.0'' [sample_plugin ''portmap'' []]) 1
           (Some (sample_result ''/opt/cni/bin/bridge'')) sample_rt
           (snd (getCachedResult sample_env ''net1'' ''0.4.0'' sample_rt cached_world))) = Ok ()
 \<and> (case prepare sample_env sample_config ''net1'' ''0.4.0'' (sample_plugin ''fail'' [])
            (Some (sample_result ''/opt/cni/bin/bridge'')) sample_rt of
       Inl e \<Rightarrow> False
     | Inr (pluginPath, derived, capabilityArgs, cniArgs) \<Rightarrow>
         pluginPath = ''/opt/cni/bin/fail''
       \<and> ExecPluginWithoutResult sample_env [] pluginPath (Bytes derived)
            (args sample_config ''DEL'' sample_rt) = Some (Opaque ''plugin failed''))
 \<and> fst (delNetwork sample_env sample_config ''net1'' ''0.4.0'' (sample_plugin ''fail'' [])
           (Some (sample_result ''/opt/cni/bin/bridge'')) sample_rt sample_world)
     = Err (Opaque ''plugin failed'')
 \<and> fst (DelNetworkList sample_env sample_config
           (sample_list ''0.4.0'' [sample_plugin ''bridge'' [], sample_plugin ''fail'' [],
                                   sample_plugin ''portmap'' []])
           sample_rt cached_world) = Err (Opaque ''plugin failed'')
 \<and> map (\<lambda>(cmd, doc). (cmd, field doc ''type''))
       (handed cached_world
          (snd (DelNetworkList sample_env sample_config
                  (sample_list ''0.4.0'' [sample_plugin ''bridge'' [], sample_plugin ''fail'' [],
                                          sample_plugin ''portmap'' []])
                  sample_rt cached_world)))
     = [(''DEL'', Some (JString ''portmap'')), (''DEL'', Some (JString ''fail''))]
 \<and> fs (snd (DelNetworkList sample_env sample_config
                  (sample_list ''0.4.0'' [sample_plugin ''bridge'' [], sample_plugin ''fail'' [],
                                          sample_plugin ''portmap'' []])
                  sample_rt cached_world)) = fs cached_world"
proof -
  let ?good = "sample_list ''0.4.0'' [sample_plugin ''bridge'' [], sample_plugin ''portmap'' []]"
  let ?bad = "sample_list ''0.4.0'' [sample_plugin ''bridge'' [], sample_plugin ''fail'' [],
                                     sample_plugin ''portmap'' []]"
  let ?tail = "sample_list ''0.4.0'' [sample_plugin ''portmap'' []]"
  let ?r = "sample_result ''/opt/cni/bin/bridge''"
  let ?w1 = "snd (getCachedResult sample_env ''net1'' ''0.4.0'' sample_rt cached_world)"
  let ?w2 = "snd (DelNetworkList_loop sample_env sample_config ?tail 1 (Some ?r) sample_rt ?w1)"
  let ?w3 = "snd (delNetwork sample_env sample_config ''net1'' ''0.4.0'' (sample_plugin ''fail'' [])
                    (Some ?r) sample_rt ?w2)"
  let ?w' = "snd (DelNetworkList sample_env sample_config ?good sample_rt cached_world)"
  let ?w'' = "snd (DelNetworkList sample_env sample_config ?bad sample_rt cached_world)"
  have names: "list_Name ?good = ''net1''" "list_CNIVersion ?good = ''0.4.0''"
    "list_Name ?bad = ''net1''" "list_CNIVersion ?bad = ''0.4.0''"
    by (simp_all add: sample_list_def)
  have gate: "GreaterThanOrEqualTo sample_env ''0.4.0'' ''0.4.0'' = Inr True"
    by code_simp
  have cached: "fst (getCachedResult sample_env ''net1'' ''0.4.0'' sample_rt cached_world)
                  = (Some ?r, None)"
    by code_simp
  then have read: "(if True then getCachedResult sample_env ''net1'' ''0.4.0'' sample_rt cached_world
                    else ((None, None), cached_world)) = ((Some ?r, None), ?w1)"
    by (simp add: prod_eq_iff)
  have ok: "fst (DelNetworkList sample_env sample_config ?good sample_rt cached_world) = Ok ()"
    by code_simp
  then have run: "DelNetworkList sample_env sample_config ?good sample_rt cached_world
                    = (Ok (), ?w')"
    by (simp add: prod_eq_iff)
  have failed: "fst (DelNetworkList sample_env sample_config ?bad sample_rt cached_world)
                  = Err (Opaque ''plugin failed'')"
    by code_simp
  then have run': "DelNetworkList sample_env sample_config ?bad sample_rt cached_world
                    = (Err (Opaque ''plugin failed''), ?w'')"
    by (simp add: prod_eq_iff)
  have docs: "map (\<lambda>(cmd, doc). (cmd, field doc ''type'', field doc ''prevResult''))
       (handed cached_world ?w')
     = [(''DEL'', Some (JString ''portmap''), Some ?r),
        (''DEL'', Some (JString ''bridge''), Some ?r)]"
    by code_simp
  have docs': "map (\<lambda>(cmd, doc). (cmd, field doc ''type'')) (handed cached_world ?w'')
     = [(''DEL'', Some (JString ''portmap'')), (''DEL'', Some (JString ''fail''))]"
    by code_simp
  have gone: "map_of (fs ?w') ''/var/lib/cni/results/net1-c1-eth0'' = None"
    by code_simp
  have path: "getResultCacheFilePath ''net1'' sample_rt = ''/var/lib/cni/results/net1-c1-eth0''"
    by code_simp
  from read have "getCachedResult sample_env ''net1'' ''0.4.0'' sample_rt cached_world
                    = ((Some ?r, None), ?w1)"
    by simp
  note w1 = getCachedResult_world [OF this]
  have fs1: "fs ?w1 = fs cached_world"
    by (subst w1) simp
  have ev1: "events ?w1 = [ReadFile_ev ''/var/lib/cni/results/net1-c1-eth0'']"
    by (subst w1) (simp add: path cached_world_def sample_world_def)
  from DelNetworkList_walk
         [where env = sample_env and list = ?good and gtet = True and rt = sample_rt
            and w = cached_world and cached = "Some ?r" and ?w1.0 = ?w1 and c = sample_config
            and out = "Ok ()" and w' = ?w']
       gate read run
  have "last (new_events ?w1 ?w') = Remove_ev ''/var/lib/cni/results/net1-c1-eth0''"
    and "length (new_events ?w1 ?w') = Suc (length (Plugins ?good))"
    unfolding names path by simp_all
  then have removed: "last (events ?w') = Remove_ev ''/var/lib/cni/results/net1-c1-eth0''"
    by (auto simp: new_events_def last_drop ev1)
  have tail: "fst (DelNetworkList_loop sample_env sample_config ?tail 1 (Some ?r) sample_rt ?w1)
                = Ok ()"
    by code_simp
  then have walked: "DelNetworkList_loop sample_env sample_config
                       (?bad\<lparr>Plugins := [sample_plugin ''portmap'' []]\<rparr>)
                       (length [sample_plugin ''portmap'' []]) (Some ?r) sample_rt ?w1
                     = (Ok (), ?w2)"
    by (simp add: prod_eq_iff sample_list_def)
  have "fst (delNetwork sample_env sample_config ''net1'' ''0.4.0'' (sample_plugin ''fail'' [])
               (Some ?r) sample_rt ?w2) = Err (Opaque ''plugin failed'')"
    by code_simp
  then have stopped: "delNetwork sample_env sample_config ''net1'' ''0.4.0''
                        (sample_plugin ''fail'' []) (Some ?r) sample_rt ?w2
                      = (Err (Opaque ''plugin failed''), ?w3)"
    by (simp add: prod_eq_iff)
  have split: "Plugins ?bad = [sample_plugin ''bridge'' []] @ sample_plugin ''fail'' []
                                # [sample_plugin ''portmap'' []]"
    by (simp add: sample_list_def)
  have prepared: "case prepare sample_env sample_config ''net1'' ''0.4.0'' (sample_plugin ''fail'' [])
            (Some ?r) sample_rt of
       Inl e \<Rightarrow> False
     | Inr (pluginPath, derived, capabilityArgs, cniArgs) \<Rightarrow>
         pluginPath = ''/opt/cni/bin/fail''
       \<and> ExecPluginWithoutResult sample_env [] pluginPath (Bytes derived)
            (args sample_config ''DEL'' sample_rt) = Some (Opaque ''plugin failed'')"
    by code_simp
  then obtain derived capabilityArgs cniArgs where
    prep: "prepare sample_env sample_config ''net1'' ''0.4.0'' (sample_plugin ''fail'' [])
             (Some ?r) sample_rt = Inr (''/opt/cni/bin/fail'', derived, capabilityArgs, cniArgs)"
    and exec: "ExecPluginWithoutResult sample_env [] ''/opt/cni/bin/fail'' (Bytes derived)
                 (args sample_config ''DEL'' sample_rt) = Some (Opaque ''plugin failed'')"
    by (auto split: sum.splits)
  have local_exec: "\<not> ClientgRPC sample_config"
    by (simp add: sample_config_def)
  have start: "events sample_world = []"
    by (simp add: sample_world_def)
  note inst = DelNetworkList_walk
         [where env = sample_env and list = ?bad and gtet = True and rt = sample_rt
            and w = cached_world and cached = "Some ?r" and ?w1.0 = ?w1 and c = sample_config
            and out = "Err (Opaque ''plugin failed'')" and w' = ?w''
            and pre = "[sample_plugin ''bridge'' []]" and p = "sample_plugin ''fail'' []"
            and post = "[sample_plugin ''portmap'' []]" and ?w2.0 = ?w2
            and err = "Opaque ''plugin failed''" and ?w3.0 = ?w3
            and net = "sample_plugin ''fail'' []" and pluginPath = "''/opt/cni/bin/fail''"
            and derived = derived and capabilityArgs = capabilityArgs and cniArgs = cniArgs
            and ?w0.0 = sample_world,
          unfolded names, OF gate read run']
  from inst have "fs ?w'' = fs ?w1"
    by simp
  with fs1 have kept: "fs ?w'' = fs cached_world" by simp
  from inst split walked stopped
  have aborted: "length (handed ?w1 ?w2) = length [sample_plugin ''portmap'' []]"
    by blast
  from inst local_exec prep exec start
  have one: "fst (delNetwork sample_env sample_config ''net1'' ''0.4.0'' (sample_plugin ''fail'' [])
           (Some ?r) sample_rt sample_world) = Err (Opaque ''plugin failed'')"
    by simp
  from gate cached ok docs removed gone tail prepared one failed docs' kept show ?thesis
    by blast
qed

text \<open>
  The claim as stated fails in two places. A list of version \<^verbatim>\<open>0.3.1\<close> reads no cache,
  so the previous result is nil; yet the document handed to a plugin whose own document
  has a \<^verbatim>\<open>prevResult\<close> key carries that value, not null. And with the driver as gRPC
  client, where every reply to DEL carries the error string \<^verbatim>\<open>plugin failed\<close>, the
  walk goes on over all three plugins, the call succeeds, and the cache file is removed.
\<close>

theorem DelNetworkList_not_as_stated:
  "GreaterThanOrEqualTo sample_env ''0.3.1'' ''0.4.0'' = Inr False
 \<and> events (snd (DelNetworkList sample_env sample_config (sample_list ''0.3.1'' [stale_plugin])
                  sample_rt cached_world))
     = [ExecPlugin_ev ''/opt/cni/bin/bridge''
          (JObject [(''cniVersion'', JString ''0.3.1''), (''name'', JString ''net1''),
                    (''type'', JString ''bridge''),
                    (''prevResult'', JObject [(''cniVersion'', JString ''0.3.1''),
                                              (''madeBy'', JString ''an earlier run'')])])
          (args sample_config ''DEL'' sample_rt),
        Remove_ev ''/var/lib/cni/results/net1-c1-eth0'']
 \<and> map (\<lambda>(cmd, doc). (cmd, field doc ''prevResult''))
       (handed cached_world
          (snd (DelNetworkList sample_env sample_config (sample_list ''0.3.1'' [stale_plugin])
                  sample_rt cached_world)))
     = [(''DEL'', Some (JObject [(''cniVersion'', JString ''0.3.1''),
                                (''madeBy'', JString ''an earlier run'')]))]
 \<and> CNIdel sample_env [] (gRPCmsg JNull '''' '''' '''' JNull)
     = Inr \<lparr>reply_Error = ''plugin failed''\<rparr>
 \<and> fst (DelNetworkList sample_env grpc_config
           (sample_list ''0.4.0'' [sample_plugin ''bridge'' [], sample_plugin ''fail'' [],
                                   sample_plugin ''portmap'' []])
           sample_rt cached_world) = Ok ()
 \<and> map (\<lambda>(cmd, doc). (cmd, field doc ''type''))
       (handed cached_world
          (snd (DelNetworkList sample_env grpc_config
                  (sample_list ''0.4.0'' [sample_plugin ''bridge'' [], sample_plugin ''fail'' [],
                                          sample_plugin ''portmap'' []])
                  sample_rt cached_world)))
     = [(''DEL'', Some (JString ''portmap'')), (''DEL'', Some (JString ''fail'')),
        (''DEL'', Some (JString ''bridge''))]
 \<and> map_of (fs cached_world) ''/var/lib/cni/results/net1-c1-eth0''
     = Some (File mode_0600 (sample_result ''/opt/cni/bin/bridge''))
 \<and> map_of (fs (snd (DelNetworkList sample_env grpc_config
                  (sample_list ''0.4.0'' [sample_plugin ''bridge'' [], sample_plugin ''fail'' [],
                                          sample_plugin ''portmap'' []])
                  sample_rt cached_world))) ''/var/lib/cni/results/net1-c1-eth0'' = None"
  by code_simp

subsection \<open>The gRPC transport\<close>

text \<open>
  C9 does not hold of the code. With the driver as gRPC client, a CHECK or DEL whose
  reply carries the error string \<^verbatim>\<open>plugin failed\<close> is reported as a success by
  \<^verbatim>\<open>checkNetwork\<close>, \<^verbatim>\<open>delNetwork\<close> and the list operations, where the local
  transport returns the plugin's error; and when the RPC itself fails, each of ADD,
  CHECK and DEL ends the process instead of returning the error.
\<close>

theorem gRPC_errors_not_surfaced:
  "CNIcheck sample_env [] (gRPCmsg JNull '''' '''' '''' JNull) = Inr \<lparr>reply_Error = ''plugin failed''\<rparr>
 \<and> fst (checkNetwork sample_env grpc_config ''net1'' ''0.4.0'' (sample_plugin ''fail'' []) None
          sample_rt sample_world) = Ok ()
 \<and> fst (checkNetwork sample_env sample_config ''net1'' ''0.4.0'' (sample_plugin ''fail'' []) None
          sample_rt sample_world) = Err (Opaque ''plugin failed'')
 \<and> fst (delNetwork sample_env grpc_config ''net1'' ''0.4.0'' (sample_plugin ''fail'' []) None
          sample_rt sample_world) = Ok ()
 \<and> fst (CheckNetworkList sample_env grpc_config
          (sample_list ''0.4.0'' [sample_plugin ''fail'' []]) sample_rt cached_world) = Ok ()
 \<and> fst (DelNetworkList sample_env grpc_config
          (sample_list ''0.4.0'' [sample_plugin ''fail'' []]) sample_rt cached_world) = Ok ()
 \<and> fst (addNetwork unreachable_env grpc_config ''net1'' ''0.4.0'' (sample_plugin ''bridge'' [])
          None sample_rt sample_world) = Exited
 \<and> fst (checkNetwork unreachable_env grpc_config ''net1'' ''0.4.0'' (sample_plugin ''bridge'' [])
          None sample_rt sample_world) = Exited
 \<and> fst (delNetwork unreachable_env grpc_config ''net1'' ''0.4.0'' (sample_plugin ''bridge'' [])
          None sample_rt sample_world) = Exited
 \<and> fst (AddNetworkList unreachable_env grpc_config
          (sample_list ''0.4.0'' [sample_plugin ''bridge'' []]) sample_rt sample_world) = Exited"
  by code_simp

end
